theory Spec2Isabelle
  imports Complex_Main "HOL-Library.Word" "HOL-Library.Sublist"
begin

section \<open>Values shared by the state manager and the voice engine\<close>

text \<open>
  A JavaScript function object is modelled by its reference (identity); \<open>===\<close> on two
  function values compares references. What a function does when it is called belongs to
  the caller of the program, so it is a parameter of every operation that calls one:
  the function returns or throws. A thrown value is classified by what the expression
  \<open>error.message\<close> does with it: \<open>Nullish\<close> stands for \<open>null\<close> and \<open>undefined\<close>, where
  the property read raises a TypeError; \<open>WithMessage m\<close> for every value where the read
  yields the text \<open>m\<close> (the message of an Error object).

  A call is recorded as an event. What the called function goes on to do with the state
  manager or the engine is not part of the call: the listener registered by the page
  only redraws it, and the transcript callback of the application, which calls \<open>speak\<close>,
  is the operation \<open>speak\<close> run after the handler that made the call.
\<close>

type_synonym fn = nat

datatype thrown = Nullish | WithMessage string

datatype outcome = Returns | Throws thrown

datatype js_error = TypeError | InvalidStateError | Error string | Uncaught thrown

datatype 'a completion = Return 'a | Throw js_error

datatype level = INFO | WARN | ERROR

text \<open>A transcript is a JavaScript string: a sequence of UTF-16 code units.\<close>

type_synonym transcript = "16 word list"

record utterance =
  utt_text :: string
  utt_lang :: string
  utt_rate :: real
  utt_pitch :: real
  utt_volume :: real

text \<open>
  Everything an operation does to the outside world, in the order it does it: a console
  line of the state manager (its level and message; the prefix and the time of day are
  left out), a call of a registered listener or callback, a call of a method of the
  browser's recognition or synthesis object, the settling of the promise returned by
  \<open>speak\<close>. The console lines of the voice engine are not part of the model.
\<close>

datatype event =
    Log level string
  | Called fn string string
  | RecognitionStart string
  | RecognitionStop
  | SynthesisCancel
  | SynthesisSpeak utterance
  | TranscriptCallback fn transcript real
  | ErrorCallback fn string
  | Resolve
  | Reject js_error

fun calls :: "event list \<Rightarrow> (fn \<times> string \<times> string) list" where
  "calls [] = []"
| "calls (Called cb p n # evs) = (cb, p, n) # calls evs"
| "calls (_ # evs) = calls evs"

section \<open>stateManager.js\<close>

record state_manager =
  currentState :: string
  listeners :: "fn list"
  debugMode :: bool

definition IDLE :: string where "IDLE = ''IDLE''"
definition LISTENING :: string where "LISTENING = ''LISTENING''"
definition PROCESSING :: string where "PROCESSING = ''PROCESSING''"
definition SPEAKING :: string where "SPEAKING = ''SPEAKING''"

definition STATES :: "(string \<times> string) list" where
  "STATES = [(''IDLE'', ''IDLE''), (''LISTENING'', ''LISTENING''),
             (''PROCESSING'', ''PROCESSING''), (''SPEAKING'', ''SPEAKING'')]"

definition TRANSITIONS :: "(string \<times> string list) list" where
  "TRANSITIONS = [(''IDLE'', [''LISTENING'']),
                  (''LISTENING'', [''PROCESSING'', ''IDLE'']),
                  (''PROCESSING'', [''SPEAKING'', ''IDLE'']),
                  (''SPEAKING'', [''IDLE''])]"

text \<open>
  \<open>STATES\<close> and \<open>TRANSITIONS\<close> are object literals, so a property read also finds the
  properties inherited from \<open>Object.prototype\<close>. Their values are functions or objects:
  truthy, and without an \<open>includes\<close> method.
\<close>

definition Object_prototype_keys :: "string list" where
  "Object_prototype_keys = [''constructor'', ''hasOwnProperty'', ''isPrototypeOf'',
     ''propertyIsEnumerable'', ''toLocaleString'', ''toString'', ''valueOf'', ''__proto__'',
     ''__defineGetter__'', ''__defineSetter__'', ''__lookupGetter__'', ''__lookupSetter__'']"

text \<open>\<open>StateManager.STATES[newState]\<close> is truthy.\<close>

definition STATES_truthy :: "string \<Rightarrow> bool" where
  "STATES_truthy newState =
     (case map_of STATES newState of
        Some v \<Rightarrow> v \<noteq> []
      | None \<Rightarrow> newState \<in> set Object_prototype_keys)"

definition new_StateManager :: state_manager where
  "new_StateManager = \<lparr>currentState = IDLE, listeners = [], debugMode = True\<rparr>"

definition getState :: "state_manager \<Rightarrow> string" where
  "getState s = currentState s"

definition is_state :: "state_manager \<Rightarrow> string \<Rightarrow> bool" where
  "is_state s state = (currentState s = state)"

definition log_msg :: "state_manager \<Rightarrow> string \<Rightarrow> level \<Rightarrow> event list" where
  "log_msg s message lvl = (if \<not> debugMode s then [] else [Log lvl message])"

definition arrow :: string where
  "arrow = [CHR 0xE2, CHR 0x86, CHR 0x92]"

text \<open>
  \<open>notifyListeners\<close>: \<open>forEach\<close> over the listener array, each call in a \<open>try\<close>. The
  \<open>catch\<close> clause reads \<open>error.message\<close> to build the log line; when that read raises,
  the TypeError leaves the \<open>forEach\<close>.
\<close>

fun forEach_listener ::
  "(fn \<Rightarrow> string \<Rightarrow> string \<Rightarrow> outcome) \<Rightarrow> state_manager \<Rightarrow> string \<Rightarrow> string \<Rightarrow> fn list
     \<Rightarrow> unit completion \<times> event list" where
  "forEach_listener beh s previousState newState [] = (Return (), [])"
| "forEach_listener beh s previousState newState (callback # rest) =
     (case beh callback previousState newState of
        Returns \<Rightarrow>
          (case forEach_listener beh s previousState newState rest of
             (c, evs) \<Rightarrow> (c, Called callback previousState newState # evs))
      | Throws (WithMessage m) \<Rightarrow>
          (case forEach_listener beh s previousState newState rest of
             (c, evs) \<Rightarrow> (c, Called callback previousState newState
                              # log_msg s (''Listener error: '' @ m) ERROR @ evs))
      | Throws Nullish \<Rightarrow> (Throw TypeError, [Called callback previousState newState]))"

definition notifyListeners ::
  "(fn \<Rightarrow> string \<Rightarrow> string \<Rightarrow> outcome) \<Rightarrow> state_manager \<Rightarrow> string \<Rightarrow> string
     \<Rightarrow> unit completion \<times> event list" where
  "notifyListeners beh s previousState newState =
     forEach_listener beh s previousState newState (listeners s)"

definition transition ::
  "(fn \<Rightarrow> string \<Rightarrow> string \<Rightarrow> outcome) \<Rightarrow> state_manager \<Rightarrow> string
     \<Rightarrow> bool completion \<times> event list \<times> state_manager" where
  \<open>transition beh s newState =
     (if \<not> STATES_truthy newState then
        (Return False, log_msg s (''ERROR: Invalid state "'' @ newState @ ''"'') ERROR, s)
      else
        (case map_of TRANSITIONS (currentState s) of
           None \<Rightarrow> (Throw TypeError, [], s)
         | Some allowedTransitions \<Rightarrow>
             if newState \<notin> set allowedTransitions then
               (Return False,
                log_msg s (''ERROR: Cannot transition from '' @ currentState s @ '' to '' @ newState)
                  ERROR,
                s)
             else
               (let previousState = currentState s;
                    s' = s\<lparr>currentState := newState\<rparr>
                in case notifyListeners beh s' previousState newState of
                     (c, evs) \<Rightarrow>
                       ((case c of Return _ \<Rightarrow> Return True | Throw e \<Rightarrow> Throw e),
                        log_msg s' (''State: '' @ previousState @ '' '' @ arrow @ '' '' @ newState) INFO
                          @ evs,
                        s'))))\<close>

definition forceTransition ::
  "(fn \<Rightarrow> string \<Rightarrow> string \<Rightarrow> outcome) \<Rightarrow> state_manager \<Rightarrow> string
     \<Rightarrow> unit completion \<times> event list \<times> state_manager" where
  \<open>forceTransition beh s newState =
     (if \<not> STATES_truthy newState then
        (Return (),
         log_msg s (''ERROR: Cannot force transition to invalid state "'' @ newState @ ''"'') ERROR,
         s)
      else
        (let previousState = currentState s;
             s' = s\<lparr>currentState := newState\<rparr>
         in case notifyListeners beh s' previousState newState of
              (c, evs) \<Rightarrow>
                (c,
                 log_msg s' (''FORCED State: '' @ previousState @ '' '' @ arrow @ '' '' @ newState) WARN
                   @ evs,
                 s')))\<close>

definition reset ::
  "(fn \<Rightarrow> string \<Rightarrow> string \<Rightarrow> outcome) \<Rightarrow> state_manager
     \<Rightarrow> unit completion \<times> event list \<times> state_manager" where
  "reset beh s = forceTransition beh s IDLE"

text \<open>
  \<open>addListener\<close> keeps its argument only when \<open>typeof callback === 'function'\<close>:
  \<open>None\<close> stands for an argument that is not a function.
\<close>

definition addListener :: "state_manager \<Rightarrow> fn option \<Rightarrow> state_manager" where
  "addListener s callback =
     (case callback of
        Some f \<Rightarrow> s\<lparr>listeners := listeners s @ [f]\<rparr>
      | None \<Rightarrow> s)"

definition removeListener :: "state_manager \<Rightarrow> fn \<Rightarrow> state_manager" where
  "removeListener s callback = s\<lparr>listeners := filter (\<lambda>cb. cb \<noteq> callback) (listeners s)\<rparr>"

text \<open>The transition table in the words of the specification.\<close>

definition spec_table :: "string \<Rightarrow> string set" where
  "spec_table P =
     (if P = IDLE then {LISTENING}
      else if P = LISTENING then {PROCESSING, IDLE}
      else if P = PROCESSING then {SPEAKING, IDLE}
      else if P = SPEAKING then {IDLE}
      else {})"

text \<open>A listener behaviour under which every listener returns.\<close>

definition quiet :: "fn \<Rightarrow> string \<Rightarrow> string \<Rightarrow> outcome" where
  "quiet cb p n = Returns"

text \<open>
  Requests made of the state manager one after the other, each with the behaviour of the
  listeners during that request; the events of all of them in order, and the final state.
\<close>

datatype request = Transition string | ForceTransition string | Reset

fun run_request ::
  "state_manager \<Rightarrow> (fn \<Rightarrow> string \<Rightarrow> string \<Rightarrow> outcome) \<times> request
     \<Rightarrow> event list \<times> state_manager" where
  "run_request s (beh, Transition newState) = snd (transition beh s newState)"
| "run_request s (beh, ForceTransition newState) = snd (forceTransition beh s newState)"
| "run_request s (beh, Reset) = snd (reset beh s)"

fun run_requests ::
  "state_manager \<Rightarrow> ((fn \<Rightarrow> string \<Rightarrow> string \<Rightarrow> outcome) \<times> request) list
     \<Rightarrow> event list \<times> state_manager" where
  "run_requests s [] = ([], s)"
| "run_requests s (r # rs) =
     (case run_request s r of
        (evs, s') \<Rightarrow> (case run_requests s' rs of (evs', s'') \<Rightarrow> (evs @ evs', s'')))"

text \<open>Concrete state managers and listener behaviours for the worked examples.\<close>

definition sm_idle :: state_manager where
  "sm_idle = \<lparr>currentState = ''IDLE'', listeners = [7], debugMode = True\<rparr>"

definition sm_listening :: state_manager where
  "sm_listening = \<lparr>currentState = ''LISTENING'', listeners = [7], debugMode = True\<rparr>"

definition sm_two :: state_manager where
  "sm_two = \<lparr>currentState = ''IDLE'', listeners = [1, 2], debugMode = True\<rparr>"

definition sm_dup :: state_manager where
  "sm_dup = \<lparr>currentState = ''IDLE'', listeners = [1, 2, 1, 3], debugMode = True\<rparr>"

definition first_throws_null :: "fn \<Rightarrow> string \<Rightarrow> string \<Rightarrow> outcome" where
  "first_throws_null cb p n = (if cb = 1 then Throws Nullish else Returns)"

definition first_throws_error :: "fn \<Rightarrow> string \<Rightarrow> string \<Rightarrow> outcome" where
  "first_throws_error cb p n = (if cb = 1 then Throws (WithMessage ''boom'') else Returns)"

section \<open>lessonEngine.js: the voice engine\<close>

subsection \<open>The two browser capabilities\<close>

text \<open>
  Modelled from the spec: the speech recognition and speech synthesis objects belong to
  the browser, not to the repository. The specification describes them as external
  collaborators: capture, once started, delivers exactly one outcome (a transcript or an
  error) or ends with no event, and then reports its end; \<open>stop\<close> is idempotent and
  closes the microphone, the end of the session being observed through the end callback
  only; rendering completes or fails exactly once, and \<open>cancel\<close> is idempotent, the
  cancellation being observed through the failure callback only. \<open>start\<close> on a session
  that has not ended raises InvalidStateError (Web Speech API).

  A capture session is \<open>Capturing\<close> after \<open>start\<close> (microphone open, outcome awaited),
  \<open>Stopping\<close> after \<open>stop\<close> (microphone closed, outcome or end awaited), \<open>Delivered\<close>
  once its outcome has been delivered while the microphone is open (nothing says that
  the browser closes it before \<open>stop\<close> or the end), \<open>Ended\<close> once the outcome has been
  delivered and the microphone is closed, and \<open>Off\<close> after its end.
\<close>

datatype capture = Off | Capturing | Stopping | Delivered | Ended

record recognizer =
  recognition_lang :: string
  capture :: capture

datatype rendering = Silent | Rendering | Cancelled

definition recognition_start :: "recognizer \<Rightarrow> js_error + recognizer" where
  "recognition_start r =
     (case capture r of
        Off \<Rightarrow> Inr (r\<lparr>capture := Capturing\<rparr>)
      | _ \<Rightarrow> Inl InvalidStateError)"

definition recognition_stop :: "recognizer \<Rightarrow> recognizer" where
  "recognition_stop r =
     (case capture r of
        Capturing \<Rightarrow> r\<lparr>capture := Stopping\<rparr>
      | Delivered \<Rightarrow> r\<lparr>capture := Ended\<rparr>
      | _ \<Rightarrow> r)"

definition synthesis_speaking :: "rendering \<Rightarrow> bool" where
  "synthesis_speaking y = (y = Rendering)"

definition synthesis_cancel :: "rendering \<Rightarrow> rendering" where
  "synthesis_cancel y = (case y of Rendering \<Rightarrow> Cancelled | _ \<Rightarrow> y)"

subsection \<open>The engine\<close>

record voice_engine =
  stateManager :: state_manager
  recognition :: "recognizer option"
  recognitionAvailable :: bool
  synthesis :: rendering
  synthesisAvailable :: bool
  lastTranscript :: transcript
  lastTranscriptTime :: int
  onTranscriptCallback :: "fn option"
  onErrorCallback :: "fn option"
  recognitionLang :: string
  synthesisLang :: string

text \<open>
  What the functions called by the engine do: the listeners of the state manager, the
  transcript callback and the error callback.
\<close>

record callees =
  listener :: "fn \<Rightarrow> string \<Rightarrow> string \<Rightarrow> outcome"
  transcript_cb :: "fn \<Rightarrow> transcript \<Rightarrow> real \<Rightarrow> outcome"
  error_cb :: "fn \<Rightarrow> string \<Rightarrow> outcome"

text \<open>
  The constructor. \<open>hasRecognition\<close> and \<open>hasSynthesis\<close> say whether the browser offers
  \<open>SpeechRecognition\<close> and \<open>speechSynthesis\<close>. \<open>initializeRecognition\<close> runs before
  \<open>recognitionLang\<close> is assigned, so it stores \<open>undefined\<close> in \<open>recognition.lang\<close>.
\<close>

definition new_VoiceEngine :: "state_manager \<Rightarrow> bool \<Rightarrow> bool \<Rightarrow> voice_engine" where
  "new_VoiceEngine sm hasRecognition hasSynthesis =
     \<lparr>stateManager = sm,
      recognition = (if hasRecognition
                     then Some \<lparr>recognition_lang = ''undefined'', capture = Off\<rparr>
                     else None),
      recognitionAvailable = hasRecognition,
      synthesis = Silent,
      synthesisAvailable = hasSynthesis,
      lastTranscript = [],
      lastTranscriptTime = 0,
      onTranscriptCallback = None,
      onErrorCallback = None,
      recognitionLang = ''es-ES'',
      synthesisLang = ''es-ES''\<rparr>"

text \<open>\<open>String.prototype.trim\<close>: the WhiteSpace and LineTerminator code points.\<close>

definition is_whitespace :: "16 word \<Rightarrow> bool" where
  "is_whitespace c =
     (c \<in> set [0x0009, 0x000A, 0x000B, 0x000C, 0x000D, 0x0020, 0x00A0, 0x1680,
               0x2000, 0x2001, 0x2002, 0x2003, 0x2004, 0x2005, 0x2006, 0x2007, 0x2008,
               0x2009, 0x200A, 0x2028, 0x2029, 0x202F, 0x205F, 0x3000, 0xFEFF])"

definition trim :: "transcript \<Rightarrow> transcript" where
  "trim t = rev (dropWhile is_whitespace (rev (dropWhile is_whitespace t)))"

text \<open>An ASCII text as a JavaScript string.\<close>

definition js :: "string \<Rightarrow> transcript" where
  "js t = map of_char t"

text \<open>A call whose result is dropped: only whether it threw matters.\<close>

definition discard :: "'a completion \<Rightarrow> unit completion" where
  "discard c = (case c of Return _ \<Rightarrow> Return () | Throw e \<Rightarrow> Throw e)"

definition call_result :: "outcome \<Rightarrow> unit completion" where
  "call_result out = (case out of Returns \<Rightarrow> Return () | Throws t \<Rightarrow> Throw (Uncaught t))"

text \<open>\<open>recognition.onend\<close>\<close>

definition recognition_onend ::
  "callees \<Rightarrow> voice_engine \<Rightarrow> unit completion \<times> event list \<times> voice_engine" where
  "recognition_onend h v =
     (if is_state (stateManager v) LISTENING then
        (case transition (listener h) (stateManager v) IDLE of
           (c, evs, sm') \<Rightarrow> (discard c, evs, v\<lparr>stateManager := sm'\<rparr>))
      else (Return (), [], v))"

text \<open>
  \<open>recognition.onresult\<close>, for an event whose first result has the text \<open>raw\<close> and the
  given confidence, handled when \<open>Date.now()\<close> is \<open>now\<close>.
\<close>

definition recognition_onresult ::
  "callees \<Rightarrow> voice_engine \<Rightarrow> transcript \<Rightarrow> real \<Rightarrow> int
     \<Rightarrow> unit completion \<times> event list \<times> voice_engine" where
  "recognition_onresult h v raw confidence now =
     (let transcript = trim raw in
      if transcript = lastTranscript v \<and> now - lastTranscriptTime v < 2000 then
        (Return (), [], v)
      else
        (let v1 = v\<lparr>lastTranscript := transcript, lastTranscriptTime := now\<rparr> in
         if is_state (stateManager v1) LISTENING then
           (case transition (listener h) (stateManager v1) PROCESSING of
              (c, evs, sm') \<Rightarrow>
                (let v2 = v1\<lparr>stateManager := sm'\<rparr> in
                 case c of
                   Throw e \<Rightarrow> (Throw e, evs, v2)
                 | Return _ \<Rightarrow>
                     (case onTranscriptCallback v2 of
                        None \<Rightarrow> (Return (), evs, v2)
                      | Some cb \<Rightarrow>
                          (call_result (transcript_cb h cb transcript confidence),
                           evs @ [TranscriptCallback cb transcript confidence],
                           v2))))
         else (Return (), [], v1)))"

text \<open>\<open>recognition.onerror\<close>, for an event whose \<open>error\<close> is \<open>err\<close>.\<close>

definition error_message :: "string \<Rightarrow> string option" where
  "error_message err =
     (if err = ''no-speech'' then None
      else if err = ''audio-capture'' then
        Some ''No microphone detected. Please check your device.''
      else if err = ''not-allowed'' then
        Some ''Microphone access denied. Please allow microphone access.''
      else None)"

definition recognition_onerror ::
  "callees \<Rightarrow> voice_engine \<Rightarrow> string \<Rightarrow> unit completion \<times> event list \<times> voice_engine" where
  "recognition_onerror h v err =
     (let (c, evs) =
        (case error_message err of
           None \<Rightarrow> (Return (), [])
         | Some message \<Rightarrow>
             (case onErrorCallback v of
                None \<Rightarrow> (Return (), [])
              | Some cb \<Rightarrow> (call_result (error_cb h cb message), [ErrorCallback cb message])))
      in case c of
           Throw e \<Rightarrow> (Throw e, evs, v)
         | Return _ \<Rightarrow>
             (case reset (listener h) (stateManager v) of
                (c', evs', sm') \<Rightarrow> (c', evs @ evs', v\<lparr>stateManager := sm'\<rparr>)))"

text \<open>
  \<open>startListening\<close>. The \<open>catch\<close> clause of its \<open>try\<close> resets the state manager and
  returns false; what \<open>reset\<close> itself throws leaves the function.
\<close>

definition startListening_catch ::
  "callees \<Rightarrow> event list \<Rightarrow> voice_engine \<Rightarrow> bool completion \<times> event list \<times> voice_engine" where
  "startListening_catch h evs v =
     (case reset (listener h) (stateManager v) of
        (c, evs', sm') \<Rightarrow>
          ((case c of Return _ \<Rightarrow> Return False | Throw e \<Rightarrow> Throw e),
           evs @ evs',
           v\<lparr>stateManager := sm'\<rparr>))"

definition startListening ::
  "callees \<Rightarrow> voice_engine \<Rightarrow> bool completion \<times> event list \<times> voice_engine" where
  "startListening h v =
     (if \<not> is_state (stateManager v) IDLE then (Return False, [], v)
      else if \<not> recognitionAvailable v then
        (case onErrorCallback v of
           None \<Rightarrow> (Return False, [], v)
         | Some cb \<Rightarrow>
             ((case error_cb h cb ''Speech recognition is not supported in your browser.'' of
                 Returns \<Rightarrow> Return False
               | Throws t \<Rightarrow> Throw (Uncaught t)),
              [ErrorCallback cb ''Speech recognition is not supported in your browser.''],
              v))
      else
        (case transition (listener h) (stateManager v) LISTENING of
           (Throw e, evs, sm') \<Rightarrow> startListening_catch h evs (v\<lparr>stateManager := sm'\<rparr>)
         | (Return False, evs, sm') \<Rightarrow> (Return False, evs, v\<lparr>stateManager := sm'\<rparr>)
         | (Return True, evs, sm') \<Rightarrow>
             (case recognition v of
                None \<Rightarrow> startListening_catch h evs (v\<lparr>stateManager := sm'\<rparr>)
              | Some r \<Rightarrow>
                  (let r1 = r\<lparr>recognition_lang := recognitionLang v\<rparr> in
                   case recognition_start r1 of
                     Inl e \<Rightarrow>
                       startListening_catch h (evs @ [RecognitionStart (recognitionLang v)])
                         (v\<lparr>stateManager := sm', recognition := Some r1\<rparr>)
                   | Inr r2 \<Rightarrow>
                       (Return True,
                        evs @ [RecognitionStart (recognitionLang v)],
                        v\<lparr>stateManager := sm', recognition := Some r2\<rparr>)))))"

definition stopListening :: "voice_engine \<Rightarrow> event list \<times> voice_engine" where
  "stopListening v =
     (case recognition v of
        None \<Rightarrow> ([], v)
      | Some r \<Rightarrow>
          if is_state (stateManager v) LISTENING
          then ([RecognitionStop], v\<lparr>recognition := Some (recognition_stop r)\<rparr>)
          else ([], v))"

text \<open>
  \<open>speak\<close> returns a promise and runs its executor at once: the promise comes back
  rejected, or pending on the utterance handed to the synthesis. What the executor
  throws rejects the promise.
\<close>

datatype promise = Pending | Rejected js_error

definition speak ::
  "callees \<Rightarrow> voice_engine \<Rightarrow> string \<Rightarrow> string option
     \<Rightarrow> promise \<times> event list \<times> voice_engine" where
  "speak h v txt lang =
     (if \<not> is_state (stateManager v) PROCESSING then
        (Rejected (Error ''Invalid state for speaking''),
         [Reject (Error ''Invalid state for speaking'')], v)
      else if \<not> synthesisAvailable v then
        (Rejected (Error ''Speech synthesis not available''),
         [Reject (Error ''Speech synthesis not available'')], v)
      else
        (let (evs1, y1) =
               (if synthesis_speaking (synthesis v)
                then ([SynthesisCancel], synthesis_cancel (synthesis v))
                else ([], synthesis v));
             (evs2, r2) =
               (case recognition v of
                  None \<Rightarrow> ([], None)
                | Some r \<Rightarrow> ([RecognitionStop], Some (recognition_stop r)));
             v1 = v\<lparr>synthesis := y1, recognition := r2\<rparr>
         in case transition (listener h) (stateManager v1) SPEAKING of
              (Throw e, evs, sm') \<Rightarrow>
                (Rejected e, evs1 @ evs2 @ evs @ [Reject e], v1\<lparr>stateManager := sm'\<rparr>)
            | (Return False, evs, sm') \<Rightarrow>
                (Rejected (Error ''Failed to transition to SPEAKING state''),
                 evs1 @ evs2 @ evs @ [Reject (Error ''Failed to transition to SPEAKING state'')],
                 v1\<lparr>stateManager := sm'\<rparr>)
            | (Return True, evs, sm') \<Rightarrow>
                (let utterance =
                       \<lparr>utt_text = txt,
                        utt_lang = (case lang of
                                      None \<Rightarrow> synthesisLang v
                                    | Some l \<Rightarrow> if l = [] then synthesisLang v else l),
                        utt_rate = 0.9, utt_pitch = 1.0, utt_volume = 1.0\<rparr>
                 in (Pending,
                     evs1 @ evs2 @ evs @ [SynthesisSpeak utterance],
                     v1\<lparr>stateManager := sm', synthesis := Rendering\<rparr>))))"

text \<open>\<open>utterance.onend\<close> and \<open>utterance.onerror\<close> of the utterance made by \<open>speak\<close>.\<close>

definition utterance_onend ::
  "callees \<Rightarrow> voice_engine \<Rightarrow> unit completion \<times> event list \<times> voice_engine" where
  "utterance_onend h v =
     (case transition (listener h) (stateManager v) IDLE of
        (Throw e, evs, sm') \<Rightarrow> (Throw e, evs, v\<lparr>stateManager := sm'\<rparr>)
      | (Return _, evs, sm') \<Rightarrow> (Return (), evs @ [Resolve], v\<lparr>stateManager := sm'\<rparr>))"

definition utterance_onerror ::
  "callees \<Rightarrow> voice_engine \<Rightarrow> string \<Rightarrow> unit completion \<times> event list \<times> voice_engine" where
  "utterance_onerror h v err =
     (case reset (listener h) (stateManager v) of
        (Throw e, evs, sm') \<Rightarrow> (Throw e, evs, v\<lparr>stateManager := sm'\<rparr>)
      | (Return _, evs, sm') \<Rightarrow>
          (Return (), evs @ [Reject (Error err)], v\<lparr>stateManager := sm'\<rparr>))"

text \<open>
  \<open>cancelSpeech\<close> reads \<open>this.synthesis.speaking\<close>; without \<open>speechSynthesis\<close> the
  read raises.
\<close>

definition cancelSpeech :: "voice_engine \<Rightarrow> unit completion \<times> event list \<times> voice_engine" where
  "cancelSpeech v =
     (if \<not> synthesisAvailable v then (Throw TypeError, [], v)
      else if synthesis_speaking (synthesis v)
      then (Return (), [SynthesisCancel], v\<lparr>synthesis := synthesis_cancel (synthesis v)\<rparr>)
      else (Return (), [], v))"

definition setRecognitionLanguage :: "voice_engine \<Rightarrow> string \<Rightarrow> voice_engine" where
  "setRecognitionLanguage v langCode =
     (let v1 = v\<lparr>recognitionLang := langCode\<rparr> in
      case recognition v1 of
        None \<Rightarrow> v1
      | Some r \<Rightarrow> v1\<lparr>recognition := Some (r\<lparr>recognition_lang := langCode\<rparr>)\<rparr>)"

definition setSynthesisLanguage :: "voice_engine \<Rightarrow> string \<Rightarrow> voice_engine" where
  "setSynthesisLanguage v langCode = v\<lparr>synthesisLang := langCode\<rparr>"

definition onTranscript :: "voice_engine \<Rightarrow> fn \<Rightarrow> voice_engine" where
  "onTranscript v callback = v\<lparr>onTranscriptCallback := Some callback\<rparr>"

definition onError :: "voice_engine \<Rightarrow> fn \<Rightarrow> voice_engine" where
  "onError v callback = v\<lparr>onErrorCallback := Some callback\<rparr>"

subsection \<open>The engine and the capabilities running together\<close>

text \<open>
  Modelled from the spec: what can happen to a voice engine. Its own operations can be
  called at any time, and listeners and callbacks can be registered at any time. The
  browser delivers a result or an error only for a capture session that has not yet
  delivered its outcome; it delivers the end of a session that has not ended; it delivers
  the completion of an utterance being rendered, and the failure of one being rendered
  or cancelled. The state manager is shared: any component can call \<open>transition\<close>,
  \<open>forceTransition\<close> and \<open>reset\<close> on it at any time, as the application does (\<open>reset\<close>
  after a rejected \<open>speak\<close>, \<open>transition\<close> to Processing before it speaks the
  introduction of a lesson).
\<close>

datatype action =
    StartListening
  | StopListening
  | Speak string "string option"
  | CancelSpeech
  | SetRecognitionLanguage string
  | SetSynthesisLanguage string
  | OnTranscript fn
  | OnError fn
  | AddListener "fn option"
  | RemoveListener fn
  | RecognitionResult transcript real int
  | RecognitionError string
  | RecognitionEnd
  | UtteranceEnd
  | UtteranceError string
  | StateManagerTransition string
  | StateManagerForceTransition string
  | StateManagerReset

definition session_open :: "voice_engine \<Rightarrow> bool" where
  "session_open v =
     (case recognition v of
        None \<Rightarrow> False
      | Some r \<Rightarrow> capture r = Capturing \<or> capture r = Stopping)"

definition capture_active :: "voice_engine \<Rightarrow> bool" where
  "capture_active v =
     (case recognition v of
        None \<Rightarrow> False
      | Some r \<Rightarrow> capture r = Capturing \<or> capture r = Delivered)"


definition set_capture :: "voice_engine \<Rightarrow> capture \<Rightarrow> voice_engine" where
  "set_capture v c = v\<lparr>recognition := map_option (\<lambda>r. r\<lparr>capture := c\<rparr>) (recognition v)\<rparr>"

text \<open>The session has delivered its outcome; the microphone stays as it was.\<close>

definition outcome_delivered :: "voice_engine \<Rightarrow> voice_engine" where
  "outcome_delivered v =
     v\<lparr>recognition :=
         map_option
           (\<lambda>r. case capture r of
                  Capturing \<Rightarrow> r\<lparr>capture := Delivered\<rparr>
                | Stopping \<Rightarrow> r\<lparr>capture := Ended\<rparr>
                | _ \<Rightarrow> r)
           (recognition v)\<rparr>"

fun step :: "callees \<Rightarrow> voice_engine \<Rightarrow> action \<Rightarrow> (event list \<times> voice_engine) option" where
  "step h v StartListening = Some (snd (startListening h v))"
| "step h v StopListening = Some (stopListening v)"
| "step h v (Speak txt lang) = Some (snd (speak h v txt lang))"
| "step h v CancelSpeech = Some (snd (cancelSpeech v))"
| "step h v (SetRecognitionLanguage langCode) = Some ([], setRecognitionLanguage v langCode)"
| "step h v (SetSynthesisLanguage langCode) = Some ([], setSynthesisLanguage v langCode)"
| "step h v (OnTranscript callback) = Some ([], onTranscript v callback)"
| "step h v (OnError callback) = Some ([], onError v callback)"
| "step h v (AddListener callback) =
     Some ([], v\<lparr>stateManager := addListener (stateManager v) callback\<rparr>)"
| "step h v (RemoveListener callback) =
     Some ([], v\<lparr>stateManager := removeListener (stateManager v) callback\<rparr>)"
| "step h v (RecognitionResult raw confidence now) =
     (if session_open v
      then Some (snd (recognition_onresult h (outcome_delivered v) raw confidence now))
      else None)"
| "step h v (RecognitionError err) =
     (if session_open v
      then Some (snd (recognition_onerror h (outcome_delivered v) err))
      else None)"
| "step h v RecognitionEnd =
     (case recognition v of
        None \<Rightarrow> None
      | Some r \<Rightarrow>
          if capture r = Off then None
          else Some (snd (recognition_onend h (set_capture v Off))))"
| "step h v UtteranceEnd =
     (if synthesis v = Rendering
      then Some (snd (utterance_onend h (v\<lparr>synthesis := Silent\<rparr>)))
      else None)"
| "step h v (UtteranceError err) =
     (if synthesis v = Rendering \<or> synthesis v = Cancelled
      then Some (snd (utterance_onerror h (v\<lparr>synthesis := Silent\<rparr>) err))
      else None)"
| "step h v (StateManagerTransition newState) =
     (case transition (listener h) (stateManager v) newState of
        (c, evs, sm') \<Rightarrow> Some (evs, v\<lparr>stateManager := sm'\<rparr>))"
| "step h v (StateManagerForceTransition newState) =
     (case forceTransition (listener h) (stateManager v) newState of
        (c, evs, sm') \<Rightarrow> Some (evs, v\<lparr>stateManager := sm'\<rparr>))"
| "step h v StateManagerReset =
     (case reset (listener h) (stateManager v) of
        (c, evs, sm') \<Rightarrow> Some (evs, v\<lparr>stateManager := sm'\<rparr>))"



definition at_rest :: "voice_engine \<Rightarrow> bool" where
  "at_rest v = (\<not> session_open v \<and> synthesis v = Silent)"


text \<open>
  What holds of every voice engine reached by a disciplined trace: a capture session
  that has not delivered its outcome goes with the phase Listening; an utterance being
  rendered, or cancelled and not yet reported, goes with the phase Speaking and a closed
  microphone.
\<close>

definition phase :: "voice_engine \<Rightarrow> string" where
  "phase v = currentState (stateManager v)"

definition coherent :: "voice_engine \<Rightarrow> bool" where
  "coherent v =
     ((session_open v \<longrightarrow> phase v = LISTENING)
      \<and> (synthesis v \<noteq> Silent \<longrightarrow> phase v = SPEAKING \<and> \<not> capture_active v))"

text \<open>Readings of an event list.\<close>

fun renders :: "event list \<Rightarrow> utterance list" where
  "renders [] = []"
| "renders (SynthesisSpeak u # evs) = u # renders evs"
| "renders (_ # evs) = renders evs"

fun starts :: "event list \<Rightarrow> string list" where
  "starts [] = []"
| "starts (RecognitionStart l # evs) = l # starts evs"
| "starts (_ # evs) = starts evs"

fun transcripts :: "event list \<Rightarrow> (fn \<times> transcript \<times> real) list" where
  "transcripts [] = []"
| "transcripts (TranscriptCallback cb t c # evs) = (cb, t, c) # transcripts evs"
| "transcripts (_ # evs) = transcripts evs"

fun errors :: "event list \<Rightarrow> (fn \<times> string) list" where
  "errors [] = []"
| "errors (ErrorCallback cb m # evs) = (cb, m) # errors evs"
| "errors (_ # evs) = errors evs"

text \<open>Every call of the synthesis comes after a call of \<open>recognition.stop\<close>.\<close>

fun stop_before_speak :: "bool \<Rightarrow> event list \<Rightarrow> bool" where
  "stop_before_speak stopped [] = True"
| "stop_before_speak stopped (RecognitionStop # evs) = stop_before_speak True evs"
| "stop_before_speak stopped (SynthesisSpeak u # evs) = (stopped \<and> stop_before_speak stopped evs)"
| "stop_before_speak stopped (_ # evs) = stop_before_speak stopped evs"

text \<open>Callees that all return, and a voice engine of a browser with both capabilities.\<close>

definition calm :: callees where
  "calm = \<lparr>listener = quiet, transcript_cb = (\<lambda>cb t c. Returns), error_cb = (\<lambda>cb m. Returns)\<rparr>"

text \<open>
  Callees whose error callback throws an Error, and callees whose listeners throw
  \<open>null\<close>.
\<close>

definition failing_error_cb :: callees where
  "failing_error_cb = calm\<lparr>error_cb := (\<lambda>cb m. Throws (WithMessage ''boom''))\<rparr>"


definition engine0 :: voice_engine where
  "engine0 = onError (onTranscript
               (new_VoiceEngine (addListener new_StateManager (Some 7)) True True) 11) 12"

text \<open>
  The same engine after a successful \<open>startListening\<close>; listening again after the
  transcript \<open>hola\<close> was accepted at time 1000000; and the engine of a browser without
  speech recognition.
\<close>

definition engine_listening :: voice_engine where
  "engine_listening = snd (snd (startListening calm engine0))"

definition engine_heard_hola :: voice_engine where
  "engine_heard_hola =
     engine_listening\<lparr>lastTranscript := js ''hola'', lastTranscriptTime := 1000000\<rparr>"

definition engine_deaf :: voice_engine where
  "engine_deaf = onError (new_VoiceEngine new_StateManager False True) 12"

text \<open>A listening engine with no error callback registered.\<close>

definition engine_listening_bare :: voice_engine where
  "engine_listening_bare = engine_listening\<lparr>onErrorCallback := None\<rparr>"






section \<open>Properties of the state manager\<close>

lemmas phases = IDLE_def LISTENING_def PROCESSING_def SPEAKING_def
lemmas sm_eval = transition_def forceTransition_def reset_def STATES_truthy_def STATES_def TRANSITIONS_def
  notifyListeners_def log_msg_def quiet_def Let_def

lemma calls_log [simp]: "calls (log_msg s m l) = []"
  by (simp add: log_msg_def)

lemma calls_append [simp]: "calls (xs @ ys) = calls xs @ calls ys"
  by (induction xs rule: calls.induct) simp_all

lemma calls_forEach_prefix:
  "prefix (calls (snd (forEach_listener beh s p n cbs))) (map (\<lambda>cb. (cb, p, n)) cbs)"
  by (induction cbs) (auto split: outcome.splits thrown.splits prod.splits)

lemma forEach_all_returning:
  "\<forall>cb \<in> set cbs. beh cb p n \<noteq> Throws Nullish \<Longrightarrow>
     fst (forEach_listener beh s p n cbs) = Return ()
     \<and> calls (snd (forEach_listener beh s p n cbs)) = map (\<lambda>cb. (cb, p, n)) cbs"
  by (induction cbs) (auto split: outcome.splits thrown.splits prod.splits)

lemma calls_forEach_subset:
  "(cb, p', n') \<in> set (calls (snd (forEach_listener beh s p n cbs))) \<Longrightarrow> cb \<in> set cbs \<and> p' = p \<and> n' = n"
  using calls_forEach_prefix [of beh s p n cbs] by (auto dest!: set_mono_prefix)

lemma notify_calls:
  assumes "notifyListeners beh s p n = (c, evs)"
  shows "prefix (calls evs) (map (\<lambda>cb. (cb, p, n)) (listeners s))"
    and "\<forall>cb \<in> set (listeners s). beh cb p n \<noteq> Throws Nullish \<Longrightarrow>
           c = Return () \<and> calls evs = map (\<lambda>cb. (cb, p, n)) (listeners s)"
  using assms calls_forEach_prefix [of beh s p n "listeners s"]
    forEach_all_returning [of "listeners s" beh p n s]
  by (simp_all add: notifyListeners_def)

lemma notify_calls_set:
  assumes "notifyListeners beh s p n = (c, evs)"
  shows "set (calls evs) \<subseteq> (\<lambda>cb. (cb, p, n)) ` set (listeners s)"
  using set_mono_prefix [OF notify_calls(1) [OF assms]] by simp

lemma transition_cases:
  assumes "transition beh s T = (r, evs, s')"
  shows "(r = Return False \<and> s' = s \<and> (\<exists>m. evs = log_msg s m ERROR)
            \<and> (\<forall>a. map_of TRANSITIONS (currentState s) = Some a \<longrightarrow> STATES_truthy T \<longrightarrow> T \<notin> set a))
       \<or> (r = Throw TypeError \<and> evs = [] \<and> s' = s \<and> map_of TRANSITIONS (currentState s) = None)
       \<or> (\<exists>a c nev. map_of TRANSITIONS (currentState s) = Some a \<and> T \<in> set a \<and> STATES_truthy T
            \<and> notifyListeners beh (s\<lparr>currentState := T\<rparr>) (currentState s) T = (c, nev)
            \<and> s' = s\<lparr>currentState := T\<rparr>
            \<and> evs = log_msg s' (''State: '' @ currentState s @ '' '' @ arrow @ '' '' @ T) INFO @ nev
            \<and> r = (case c of Return _ \<Rightarrow> Return True | Throw e \<Rightarrow> Throw e))"
  using assms
  by (auto simp: transition_def Let_def split: if_splits option.splits prod.splits)

lemma forceTransition_cases:
  assumes "forceTransition beh s T = (r, evs, s')"
  shows "(r = Return () \<and> s' = s \<and> (\<exists>m. evs = log_msg s m ERROR) \<and> \<not> STATES_truthy T)
       \<or> (\<exists>nev. STATES_truthy T
            \<and> notifyListeners beh (s\<lparr>currentState := T\<rparr>) (currentState s) T = (r, nev)
            \<and> s' = s\<lparr>currentState := T\<rparr>
            \<and> evs = log_msg s' (''FORCED State: '' @ currentState s @ '' '' @ arrow @ '' '' @ T) WARN @ nev)"
  using assms
  by (auto simp: forceTransition_def Let_def split: if_splits option.splits prod.splits)

lemma transition_frame:
  assumes "transition beh s T = (r, evs, s')"
  shows "listeners s' = listeners s" and "debugMode s' = debugMode s"
    and "set (calls evs) \<subseteq> (\<lambda>cb. (cb, currentState s, T)) ` set (listeners s)"
  using transition_cases [OF assms] notify_calls_set [of beh "s\<lparr>currentState := T\<rparr>" "currentState s" T]
  by fastforce+

lemma forceTransition_frame:
  assumes "forceTransition beh s T = (r, evs, s')"
  shows "listeners s' = listeners s" and "debugMode s' = debugMode s"
    and "set (calls evs) \<subseteq> (\<lambda>cb. (cb, currentState s, T)) ` set (listeners s)"
  using forceTransition_cases [OF assms] notify_calls_set [of beh "s\<lparr>currentState := T\<rparr>" "currentState s" T]
  by fastforce+

lemma run_request_frame:
  assumes "run_request s r = (evs, s')"
  shows "listeners s' = listeners s \<and> fst ` set (calls evs) \<subseteq> set (listeners s)"
proof (cases r)
  case (Pair beh q)
  show ?thesis
  proof (cases q)
    case (Transition T)
    obtain c where "transition beh s T = (c, evs, s')"
      using assms Pair Transition by (cases "transition beh s T") simp
    from transition_frame [OF this] show ?thesis by auto
  next
    case (ForceTransition T)
    obtain c where "forceTransition beh s T = (c, evs, s')"
      using assms Pair ForceTransition by (cases "forceTransition beh s T") simp
    from forceTransition_frame [OF this] show ?thesis by auto
  next
    case Reset
    obtain c where "forceTransition beh s IDLE = (c, evs, s')"
      using assms Pair Reset by (cases "forceTransition beh s IDLE") (simp add: reset_def)
    from forceTransition_frame [OF this] show ?thesis by auto
  qed
qed

lemma run_requests_frame:
  "run_requests s rs = (evs, s') \<Longrightarrow>
     listeners s' = listeners s \<and> fst ` set (calls evs) \<subseteq> set (listeners s)"
proof (induction rs arbitrary: s evs s')
  case Nil
  then show ?case by simp
next
  case (Cons r rs)
  obtain e1 s1 where r: "run_request s r = (e1, s1)" by (cases "run_request s r")
  obtain e2 s2 where rs: "run_requests s1 rs = (e2, s2)" by (cases "run_requests s1 rs")
  from Cons.prems r rs have eq: "evs = e1 @ e2" "s' = s2" by simp_all
  from run_request_frame [OF r] Cons.IH [OF rs] eq show ?case by auto
qed

lemma map_of_TRANSITIONS:
  "P \<in> {IDLE, LISTENING, PROCESSING, SPEAKING} \<Longrightarrow>
     \<exists>a. map_of TRANSITIONS P = Some a \<and> set a = spec_table P"
  by (auto simp: TRANSITIONS_def spec_table_def phases)

lemma spec_table_phase:
  "T \<in> spec_table P \<Longrightarrow> T \<in> {IDLE, LISTENING, PROCESSING, SPEAKING}"
  by (auto simp: spec_table_def split: if_splits)

lemma STATES_truthy_phase:
  "T \<in> {IDLE, LISTENING, PROCESSING, SPEAKING} \<Longrightarrow> STATES_truthy T"
  by (auto simp: STATES_truthy_def STATES_def phases)

text \<open>
  What \<open>transition\<close> does with the table. From each of the four phases, a request to
  move to \<open>T\<close> is rejected (returns false) exactly when \<open>T\<close> is not in the table entry of
  the current phase, be it an unknown name or a disallowed edge; a rejected request
  changes nothing and calls no listener. A request that is not rejected sets the current
  phase to \<open>T\<close>, changes nothing else and notifies listeners in the order of
  registration. When no listener throws \<open>null\<close> or \<open>undefined\<close>, the request returns
  true exactly when \<open>T\<close> is in the table entry, and then every listener has been called.
\<close>

lemma transition_table:
  assumes P: "currentState s \<in> {IDLE, LISTENING, PROCESSING, SPEAKING}"
      and t: "transition beh s T = (r, evs, s')"
  shows "(r = Return False \<longleftrightarrow> T \<notin> spec_table (currentState s))
       \<and> (r = Return False \<longrightarrow> s' = s \<and> calls evs = [])
       \<and> (r \<noteq> Return False \<longrightarrow>
            s' = s\<lparr>currentState := T\<rparr>
            \<and> prefix (calls evs) (map (\<lambda>cb. (cb, currentState s, T)) (listeners s)))
       \<and> ((\<forall>cb \<in> set (listeners s). beh cb (currentState s) T \<noteq> Throws Nullish) \<longrightarrow>
            (r = Return True \<longleftrightarrow> T \<in> spec_table (currentState s))
            \<and> (r = Return True \<longrightarrow>
                  calls evs = map (\<lambda>cb. (cb, currentState s, T)) (listeners s)))"
proof -
  from map_of_TRANSITIONS [OF P] obtain a where
    a: "map_of TRANSITIONS (currentState s) = Some a" "set a = spec_table (currentState s)"
    by blast
  show ?thesis
  proof (cases "T \<in> spec_table (currentState s)")
    case False
    then have "r = Return False \<and> s' = s \<and> calls evs = []"
      using transition_cases [OF t] a by auto
    with False show ?thesis by simp
  next
    case True
    with transition_cases [OF t] a STATES_truthy_phase [OF spec_table_phase [OF True]]
    obtain c nev where
      n: "notifyListeners beh (s\<lparr>currentState := T\<rparr>) (currentState s) T = (c, nev)"
      and s': "s' = s\<lparr>currentState := T\<rparr>"
      and evs: "calls evs = calls nev"
      and r: "r = (case c of Return _ \<Rightarrow> Return True | Throw e \<Rightarrow> Throw e)"
      by auto
    have nF: "r \<noteq> Return False" using r by (cases c) auto
    have pre: "prefix (calls nev) (map (\<lambda>cb. (cb, currentState s, T)) (listeners s))"
      using notify_calls(1) [OF n] by simp
    have all: "(\<forall>cb \<in> set (listeners s). beh cb (currentState s) T \<noteq> Throws Nullish) \<Longrightarrow>
       r = Return True \<and> calls nev = map (\<lambda>cb. (cb, currentState s, T)) (listeners s)"
      using notify_calls(2) [OF n] r by simp
    show ?thesis using True nF s' evs pre all by auto
  qed
qed

text \<open>
  Claim C1. A request succeeds exactly when the target is in the table entry of the
  current phase, and on success the observers are notified. With listeners 1 and 2
  registered and listener 1 throwing \<open>null\<close>, the request to move from Idle to Listening
  names a target of the table entry of Idle and is committed, yet the call does not
  return true: the TypeError raised in the \<open>catch\<close> clause of \<open>notifyListeners\<close> leaves
  \<open>transition\<close>, and listener 2 is not notified.
\<close>

theorem C1_table_edge_throws_on_null_listener:
  "currentState sm_two = IDLE
   \<and> listeners sm_two = [1, 2]
   \<and> LISTENING \<in> spec_table (currentState sm_two)
   \<and> fst (transition first_throws_null sm_two LISTENING) = Throw TypeError
   \<and> calls (fst (snd (transition first_throws_null sm_two LISTENING)))
       = [(1, ''IDLE'', ''LISTENING'')]
   \<and> currentState (snd (snd (transition first_throws_null sm_two LISTENING))) = LISTENING"
  by (simp add: sm_eval sm_two_def first_throws_null_def spec_table_def phases)

text \<open>
  Claim C7, as stated: a notification carries a flag that tells a forced transition from
  a validated one. It does not: from Listening, \<open>transition\<close> to Idle and
  \<open>forceTransition\<close> to Idle call listener 7 with the same two arguments, so nothing a
  listener receives separates the two.
\<close>

theorem C7_no_forced_flag_counterexample:
  "calls (fst (snd (transition quiet sm_listening IDLE))) = [(7, ''LISTENING'', ''IDLE'')]
   \<and> calls (fst (snd (forceTransition quiet sm_listening IDLE))) = [(7, ''LISTENING'', ''IDLE'')]
   \<and> \<not> (\<exists>forced :: fn \<times> string \<times> string \<Rightarrow> bool.
          \<not> forced (hd (calls (fst (snd (transition quiet sm_listening IDLE)))))
          \<and> forced (hd (calls (fst (snd (forceTransition quiet sm_listening IDLE))))))"
  by (simp add: sm_eval sm_listening_def phases)

text \<open>
  Claim C7, amended. A notification carries the previous and the next phase and nothing
  else. For a target in the table entry of the current phase, \<open>transition\<close> and
  \<open>forceTransition\<close> leave the same state manager and call the same listeners with the
  same arguments; they differ only in the console line written in debug mode: level
  info and the text \<open>State: P -> T\<close> for the validated transition, level warn and the
  text \<open>FORCED State: P -> T\<close> for the forced one.
\<close>

theorem C7_forced_differs_in_log_only:
  assumes T: "T \<in> spec_table (currentState s)"
      and t: "transition beh s T = (r, evs, s')"
      and f: "forceTransition beh s T = (r2, evs2, s2)"
  shows "s2 = s' \<and> s' = s\<lparr>currentState := T\<rparr>
       \<and> calls evs2 = calls evs
       \<and> set (calls evs) \<subseteq> (\<lambda>cb. (cb, currentState s, T)) ` set (listeners s)
       \<and> (\<exists>nev. evs = (if debugMode s
                         then [Log INFO (''State: '' @ currentState s @ '' '' @ arrow @ '' '' @ T)]
                         else []) @ nev
               \<and> evs2 = (if debugMode s
                         then [Log WARN (''FORCED State: '' @ currentState s @ '' '' @ arrow @ '' '' @ T)]
                         else []) @ nev)"
proof -
  have P: "currentState s \<in> {IDLE, LISTENING, PROCESSING, SPEAKING}"
    using T by (auto simp: spec_table_def split: if_splits)
  from map_of_TRANSITIONS [OF P] obtain a where
    a: "map_of TRANSITIONS (currentState s) = Some a" "set a = spec_table (currentState s)"
    by blast
  have tr: "STATES_truthy T" using STATES_truthy_phase [OF spec_table_phase [OF T]] .
  obtain c nev where
    n: "notifyListeners beh (s\<lparr>currentState := T\<rparr>) (currentState s) T = (c, nev)"
    by (cases "notifyListeners beh (s\<lparr>currentState := T\<rparr>) (currentState s) T")
  have e1: "evs = log_msg (s\<lparr>currentState := T\<rparr>)
                    (''State: '' @ currentState s @ '' '' @ arrow @ '' '' @ T) INFO @ nev"
    and s1: "s' = s\<lparr>currentState := T\<rparr>"
    using transition_cases [OF t] a T tr n by auto
  have e2: "evs2 = log_msg (s\<lparr>currentState := T\<rparr>)
                    (''FORCED State: '' @ currentState s @ '' '' @ arrow @ '' '' @ T) WARN @ nev"
    and s2: "s2 = s\<lparr>currentState := T\<rparr>"
    using forceTransition_cases [OF f] tr n by auto
  have sub: "set (calls evs) \<subseteq> (\<lambda>cb. (cb, currentState s, T)) ` set (listeners s)"
    using transition_frame(3) [OF t] .
  have ex: "\<exists>nev. evs = (if debugMode s
                         then [Log INFO (''State: '' @ currentState s @ '' '' @ arrow @ '' '' @ T)]
                         else []) @ nev
               \<and> evs2 = (if debugMode s
                         then [Log WARN (''FORCED State: '' @ currentState s @ '' '' @ arrow @ '' '' @ T)]
                         else []) @ nev"
    using e1 e2 by (intro exI [of _ nev]) (simp add: log_msg_def)
  have "calls evs2 = calls evs" using e1 e2 by simp
  with s1 s2 sub ex show ?thesis by blast
qed

theorem C7_forced_differs_in_log_only_witness:
  "IDLE \<in> spec_table (currentState sm_listening)
   \<and> transition quiet sm_listening IDLE =
       (Return True,
        [Log INFO (''State: LISTENING '' @ arrow @ '' IDLE''), Called 7 ''LISTENING'' ''IDLE''],
        sm_listening\<lparr>currentState := IDLE\<rparr>)
   \<and> forceTransition quiet sm_listening IDLE =
       (Return (),
        [Log WARN (''FORCED State: LISTENING '' @ arrow @ '' IDLE''), Called 7 ''LISTENING'' ''IDLE''],
        sm_listening\<lparr>currentState := IDLE\<rparr>)
   \<and> calls [Log WARN (''FORCED State: LISTENING '' @ arrow @ '' IDLE''), Called 7 ''LISTENING'' ''IDLE'']
     = calls [Log INFO (''State: LISTENING '' @ arrow @ '' IDLE''), Called 7 ''LISTENING'' ''IDLE'']"
proof -
  have T: "IDLE \<in> spec_table (currentState sm_listening)"
    by (simp add: spec_table_def sm_listening_def phases)
  have t: "transition quiet sm_listening IDLE =
       (Return True,
        [Log INFO (''State: LISTENING '' @ arrow @ '' IDLE''), Called 7 ''LISTENING'' ''IDLE''],
        sm_listening\<lparr>currentState := IDLE\<rparr>)"
    by (simp add: sm_eval sm_listening_def phases)
  have f: "forceTransition quiet sm_listening IDLE =
       (Return (),
        [Log WARN (''FORCED State: LISTENING '' @ arrow @ '' IDLE''), Called 7 ''LISTENING'' ''IDLE''],
        sm_listening\<lparr>currentState := IDLE\<rparr>)"
    by (simp add: sm_eval sm_listening_def phases)
  from C7_forced_differs_in_log_only [OF T t f] T t f show ?thesis by blast
qed

text \<open>
  Claim C8, as stated: every committed transition is recorded with a sequence number,
  strictly smaller for the earlier of two. Nothing of the kind is recorded: after
  Idle, Listening, Idle the state manager is the very record it was at the start, so the
  first and the third committed transition produce the same state, the same console line
  and the same notification, and no number read off them can be smaller for the first.
\<close>

theorem C8_no_sequence_number_counterexample:
  "snd (run_requests sm_idle [(quiet, Transition LISTENING), (quiet, Transition IDLE)]) = sm_idle
   \<and> fst (transition quiet sm_idle LISTENING) = Return True
   \<and> fst (transition quiet (sm_idle\<lparr>currentState := LISTENING\<rparr>) IDLE) = Return True
   \<and> \<not> (\<exists>seq :: bool completion \<times> event list \<times> state_manager \<Rightarrow> nat.
          seq (transition quiet sm_idle LISTENING)
            < seq (transition quiet
                     (snd (run_requests sm_idle [(quiet, Transition LISTENING), (quiet, Transition IDLE)]))
                     LISTENING))"
proof -
  have "snd (run_requests sm_idle [(quiet, Transition LISTENING), (quiet, Transition IDLE)]) = sm_idle"
    by (simp add: sm_eval sm_idle_def phases)
  moreover have "fst (transition quiet sm_idle LISTENING) = Return True"
    by (simp add: sm_eval sm_idle_def phases)
  moreover have "fst (transition quiet (sm_idle\<lparr>currentState := LISTENING\<rparr>) IDLE) = Return True"
    by (simp add: sm_eval sm_idle_def phases)
  ultimately show ?thesis by simp
qed

text \<open>
  Claim C8, amended. No sequence number is kept. A transition, validated or forced,
  either leaves the state manager as it was or replaces the current phase and nothing
  else, and the notifications it delivers name only the previous and the next phase.
\<close>

theorem C8_commit_changes_phase_only:
  assumes t: "transition beh s T = (r, evs, s')"
      and f: "forceTransition beh s T = (r2, evs2, s2)"
  shows "(s' = s \<or> s' = s\<lparr>currentState := T\<rparr>)
       \<and> (s2 = s \<or> s2 = s\<lparr>currentState := T\<rparr>)
       \<and> set (calls evs) \<subseteq> (\<lambda>cb. (cb, currentState s, T)) ` set (listeners s)
       \<and> set (calls evs2) \<subseteq> (\<lambda>cb. (cb, currentState s, T)) ` set (listeners s)"
  using transition_cases [OF t] forceTransition_cases [OF f]
    transition_frame(3) [OF t] forceTransition_frame(3) [OF f]
  by blast

theorem C8_commit_changes_phase_only_witness:
  "transition quiet sm_idle LISTENING =
       (Return True,
        [Log INFO (''State: IDLE '' @ arrow @ '' LISTENING''), Called 7 ''IDLE'' ''LISTENING''],
        sm_idle\<lparr>currentState := LISTENING\<rparr>)
   \<and> forceTransition quiet sm_idle LISTENING =
       (Return (),
        [Log WARN (''FORCED State: IDLE '' @ arrow @ '' LISTENING''), Called 7 ''IDLE'' ''LISTENING''],
        sm_idle\<lparr>currentState := LISTENING\<rparr>)
   \<and> set (calls [Log INFO (''State: IDLE '' @ arrow @ '' LISTENING''), Called 7 ''IDLE'' ''LISTENING''])
       \<subseteq> (\<lambda>cb. (cb, currentState sm_idle, LISTENING)) ` set (listeners sm_idle)"
proof -
  have t: "transition quiet sm_idle LISTENING =
       (Return True,
        [Log INFO (''State: IDLE '' @ arrow @ '' LISTENING''), Called 7 ''IDLE'' ''LISTENING''],
        sm_idle\<lparr>currentState := LISTENING\<rparr>)"
    by (simp add: sm_eval sm_idle_def phases)
  have f: "forceTransition quiet sm_idle LISTENING =
       (Return (),
        [Log WARN (''FORCED State: IDLE '' @ arrow @ '' LISTENING''), Called 7 ''IDLE'' ''LISTENING''],
        sm_idle\<lparr>currentState := LISTENING\<rparr>)"
    by (simp add: sm_eval sm_idle_def phases)
  from C8_commit_changes_phase_only [OF t f] t f show ?thesis by blast
qed

text \<open>
  Claim C9. Every registered listener is called once per registered occurrence, in the
  order of registration, with the previous and the new phase, as long as no listener
  throws \<open>null\<close> or \<open>undefined\<close> (\<open>notify_calls\<close>). A listener that throws an Error is
  logged and the next one is called. A listener that throws \<open>null\<close> makes the \<open>catch\<close>
  clause itself raise a TypeError on \<open>error.message\<close>: with listeners 1 and 2 registered
  and listener 1 throwing \<open>null\<close>, the transition from Idle to Listening is committed,
  listener 2 is never called and the TypeError leaves \<open>transition\<close>.
\<close>

theorem C9_null_throw_stops_notification:
  "transition first_throws_null sm_two LISTENING =
     (Throw TypeError,
      [Log INFO (''State: IDLE '' @ arrow @ '' LISTENING''), Called 1 ''IDLE'' ''LISTENING''],
      sm_two\<lparr>currentState := ''LISTENING''\<rparr>)
   \<and> transition first_throws_error sm_two LISTENING =
     (Return True,
      [Log INFO (''State: IDLE '' @ arrow @ '' LISTENING''), Called 1 ''IDLE'' ''LISTENING'',
       Log ERROR ''Listener error: boom'', Called 2 ''IDLE'' ''LISTENING''],
      sm_two\<lparr>currentState := ''LISTENING''\<rparr>)"
  by (simp add: sm_eval sm_two_def first_throws_null_def first_throws_error_def phases)

text \<open>
  Claim C10. \<open>removeListener\<close> removes every occurrence of the callback: afterwards the
  callback is not registered, the other listeners are the same in the same order, the
  current phase and the debug flag are untouched, a callback that was not registered
  leaves the state manager unchanged, and whatever transitions, forced transitions and
  resets follow, the callback is not called.
\<close>

theorem C10_removeListener_all_occurrences:
  "callback \<notin> set (listeners (removeListener s callback))
   \<and> filter (\<lambda>cb. cb \<noteq> callback) (listeners (removeListener s callback))
       = filter (\<lambda>cb. cb \<noteq> callback) (listeners s)
   \<and> currentState (removeListener s callback) = currentState s
   \<and> debugMode (removeListener s callback) = debugMode s
   \<and> (callback \<notin> set (listeners s) \<longrightarrow> removeListener s callback = s)
   \<and> (\<forall>rs p n. (callback, p, n) \<notin> set (calls (fst (run_requests (removeListener s callback) rs))))"
proof -
  have 1: "callback \<notin> set (listeners (removeListener s callback))"
    by (simp add: removeListener_def)
  have 2: "callback \<notin> set (listeners s) \<longrightarrow> removeListener s callback = s"
  proof
    assume "callback \<notin> set (listeners s)"
    then have "filter (\<lambda>cb. cb \<noteq> callback) (listeners s) = listeners s"
      by (induction "listeners s") (auto simp: filter_id_conv)
    then show "removeListener s callback = s" by (simp add: removeListener_def)
  qed
  have 3: "(callback, p, n) \<notin> set (calls (fst (run_requests (removeListener s callback) rs)))" for rs p n
  proof
    assume a: "(callback, p, n) \<in> set (calls (fst (run_requests (removeListener s callback) rs)))"
    obtain evs s' where r: "run_requests (removeListener s callback) rs = (evs, s')"
      by (cases "run_requests (removeListener s callback) rs")
    from run_requests_frame [OF r] a r have "callback \<in> set (listeners (removeListener s callback))"
      by force
    with 1 show False by simp
  qed
  show ?thesis using 1 2 3 by (simp add: removeListener_def)
qed

theorem C10_removeListener_all_occurrences_witness:
  "listeners (removeListener sm_dup 1) = [2, 3]
   \<and> 1 \<notin> set (listeners (removeListener sm_dup 1))
   \<and> removeListener sm_dup 9 = sm_dup
   \<and> calls (fst (run_requests (removeListener sm_dup 1) [(quiet, Transition LISTENING), (quiet, Reset)]))
       = [(2, ''IDLE'', ''LISTENING''), (3, ''IDLE'', ''LISTENING''),
          (2, ''LISTENING'', ''IDLE''), (3, ''LISTENING'', ''IDLE'')]"
proof -
  have "9 \<notin> set (listeners sm_dup)" by (simp add: sm_dup_def)
  with C10_removeListener_all_occurrences [of 9 sm_dup] have "removeListener sm_dup 9 = sm_dup"
    by blast
  moreover have "1 \<notin> set (listeners (removeListener sm_dup 1))"
    using C10_removeListener_all_occurrences [of 1 sm_dup] by blast
  moreover have "listeners (removeListener sm_dup 1) = [2, 3]"
    by (simp add: removeListener_def sm_dup_def)
  moreover have "calls (fst (run_requests (removeListener sm_dup 1) [(quiet, Transition LISTENING), (quiet, Reset)]))
       = [(2, ''IDLE'', ''LISTENING''), (3, ''IDLE'', ''LISTENING''),
          (2, ''LISTENING'', ''IDLE''), (3, ''LISTENING'', ''IDLE'')]"
    by (simp add: removeListener_def sm_dup_def sm_eval phases)
  ultimately show ?thesis by simp
qed

section \<open>Properties of the voice engine\<close>

subsection \<open>Events and single steps\<close>

lemma renders_append [simp]: "renders (xs @ ys) = renders xs @ renders ys"
  by (induction xs rule: renders.induct) simp_all

lemma starts_append [simp]: "starts (xs @ ys) = starts xs @ starts ys"
  by (induction xs rule: starts.induct) simp_all

lemma transcripts_append [simp]: "transcripts (xs @ ys) = transcripts xs @ transcripts ys"
  by (induction xs rule: transcripts.induct) simp_all

lemma errors_append [simp]: "errors (xs @ ys) = errors xs @ errors ys"
  by (induction xs rule: errors.induct) simp_all

lemma readings_log [simp]:
  "renders (log_msg s m l) = []" "starts (log_msg s m l) = []"
  "transcripts (log_msg s m l) = []" "errors (log_msg s m l) = []"
  by (simp_all add: log_msg_def)

lemma readings_forEach:
  "renders (snd (forEach_listener beh s p n cbs)) = []
   \<and> starts (snd (forEach_listener beh s p n cbs)) = []
   \<and> transcripts (snd (forEach_listener beh s p n cbs)) = []
   \<and> errors (snd (forEach_listener beh s p n cbs)) = []"
  by (induction cbs) (auto split: outcome.splits thrown.splits prod.splits)

lemma readings_notify:
  assumes "notifyListeners beh s p n = (c, evs)"
  shows "renders evs = []" "starts evs = []" "transcripts evs = []" "errors evs = []"
  using assms readings_forEach [of beh s p n "listeners s"]
  by (simp_all add: notifyListeners_def)

lemma readings_transition:
  assumes "transition beh s T = (r, evs, s')"
  shows "renders evs = []" "starts evs = []" "transcripts evs = []" "errors evs = []"
  using transition_cases [OF assms] readings_notify [of beh "s\<lparr>currentState := T\<rparr>" "currentState s" T]
  by (auto simp: log_msg_def)

lemma readings_forceTransition:
  assumes "forceTransition beh s T = (r, evs, s')"
  shows "renders evs = []" "starts evs = []" "transcripts evs = []" "errors evs = []"
  using forceTransition_cases [OF assms] readings_notify [of beh "s\<lparr>currentState := T\<rparr>" "currentState s" T]
  by (auto simp: log_msg_def)

lemma STATES_truthy_IDLE [simp]: "STATES_truthy IDLE"
  by (simp add: STATES_truthy_def STATES_def phases)

lemma reset_state:
  assumes "reset beh s = (r, evs, s')"
  shows "s' = s\<lparr>currentState := IDLE\<rparr>"
  using forceTransition_cases [of beh s IDLE r evs s'] assms by (auto simp: reset_def)

lemmas ve_eval = speak_def startListening_def startListening_catch_def stopListening_def
  recognition_onresult_def recognition_onerror_def recognition_onend_def utterance_onend_def
  utterance_onerror_def cancelSpeech_def is_state_def error_message_def call_result_def discard_def
  new_VoiceEngine_def new_StateManager_def addListener_def onTranscript_def onError_def
  engine0_def calm_def recognition_start_def recognition_stop_def synthesis_speaking_def
  synthesis_cancel_def set_capture_def outcome_delivered_def session_open_def

lemma error_message_simps:
  "error_message ''no-speech'' = None"
  "error_message ''audio-capture'' = Some ''No microphone detected. Please check your device.''"
  "error_message ''not-allowed'' = Some ''Microphone access denied. Please allow microphone access.''"
  by (simp_all add: error_message_def)

lemma onerror_silent:
  assumes "error_message err = None \<or> onErrorCallback v = None"
      and "recognition_onerror h v err = (r, evs, v')"
  shows "\<exists>sm'. reset (listener h) (stateManager v) = (r, evs, sm') \<and> v' = v\<lparr>stateManager := sm'\<rparr>"
  using assms
  by (cases "reset (listener h) (stateManager v)")
     (auto simp: recognition_onerror_def split: option.splits)

lemma onerror_surfaced:
  assumes "error_message err = Some m" and "onErrorCallback v = Some cb"
      and "recognition_onerror h v err = (r, evs, v')"
  shows "(\<exists>t. error_cb h cb m = Throws t \<and> r = Throw (Uncaught t) \<and> evs = [ErrorCallback cb m] \<and> v' = v)
       \<or> (error_cb h cb m = Returns
            \<and> (\<exists>evs' sm'. reset (listener h) (stateManager v) = (r, evs', sm')
                  \<and> evs = ErrorCallback cb m # evs' \<and> v' = v\<lparr>stateManager := sm'\<rparr>))"
  using assms
  by (cases "reset (listener h) (stateManager v)"; cases "error_cb h cb m")
     (simp_all add: recognition_onerror_def call_result_def)

lemma reset_effects:
  assumes "reset beh s = (r, evs, s')"
  shows "s' = s\<lparr>currentState := IDLE\<rparr>" "errors evs = []" "renders evs = []" "starts evs = []"
    "transcripts evs = []"
    "prefix (calls evs) (map (\<lambda>l. (l, currentState s, IDLE)) (listeners s))"
proof -
  have f: "forceTransition beh s IDLE = (r, evs, s')" using assms by (simp add: reset_def)
  show "s' = s\<lparr>currentState := IDLE\<rparr>" using reset_state [OF assms] .
  show "errors evs = []" "renders evs = []" "starts evs = []" "transcripts evs = []"
    using readings_forceTransition [OF f] by simp_all
  from forceTransition_cases [OF f] obtain nev where
    "notifyListeners beh (s\<lparr>currentState := IDLE\<rparr>) (currentState s) IDLE = (r, nev)"
    "calls evs = calls nev" by auto
  then show "prefix (calls evs) (map (\<lambda>l. (l, currentState s, IDLE)) (listeners s))"
    using notify_calls(1) [of beh "s\<lparr>currentState := IDLE\<rparr>" "currentState s" IDLE r nev] by simp
qed

lemma transition_commit:
  assumes T: "T \<in> spec_table (currentState s)"
      and t: "transition beh s T = (r, evs, s')"
  shows "\<exists>c nev. notifyListeners beh (s\<lparr>currentState := T\<rparr>) (currentState s) T = (c, nev)
           \<and> s' = s\<lparr>currentState := T\<rparr>
           \<and> evs = log_msg s' (''State: '' @ currentState s @ '' '' @ arrow @ '' '' @ T) INFO @ nev
           \<and> r = (case c of Return _ \<Rightarrow> Return True | Throw e \<Rightarrow> Throw e)"
proof -
  have P: "currentState s \<in> {IDLE, LISTENING, PROCESSING, SPEAKING}"
    using T by (auto simp: spec_table_def split: if_splits)
  from map_of_TRANSITIONS [OF P] obtain a where
    a: "map_of TRANSITIONS (currentState s) = Some a" "set a = spec_table (currentState s)"
    by blast
  have tr: "STATES_truthy T" using STATES_truthy_phase [OF spec_table_phase [OF T]] .
  from transition_cases [OF t] a T tr show ?thesis by auto
qed

lemma transition_commit_result:
  assumes T: "T \<in> spec_table (currentState s)"
      and t: "transition beh s T = (r, evs, s')"
  shows "s' = s\<lparr>currentState := T\<rparr> \<and> (r = Return True \<or> (\<exists>e. r = Throw e))"
proof -
  from transition_commit [OF T t] obtain c :: "unit completion" where
    "s' = s\<lparr>currentState := T\<rparr>"
    "r = (case c of Return _ \<Rightarrow> Return True | Throw e \<Rightarrow> Throw e)" by auto
  then show ?thesis by (cases c) simp_all
qed

lemma engine_listening_eq:
  "engine_listening =
     engine0\<lparr>stateManager := (stateManager engine0)\<lparr>currentState := ''LISTENING''\<rparr>,
             recognition := Some \<lparr>recognition_lang = ''es-ES'', capture = Capturing\<rparr>\<rparr>"
  by (simp add: engine_listening_def ve_eval sm_eval phases)

lemma engine0_fields:
  "currentState (stateManager engine0) = ''IDLE''"
  "listeners (stateManager engine0) = [7]"
  "onTranscriptCallback engine0 = Some 11"
  "onErrorCallback engine0 = Some 12"
  "lastTranscript engine0 = []"
  by (simp_all add: ve_eval phases)

subsection \<open>Refused operations\<close>

text \<open>
  Claim C3. In every phase other than Processing, in particular Idle, Listening and
  Speaking, \<open>speak\<close> returns a promise rejected with the error "Invalid state for
  speaking"; the rejection is all it does: the synthesis is not called and the engine,
  with its phase, is unchanged.
\<close>

theorem C3_speak_outside_processing:
  assumes "currentState (stateManager v) \<noteq> PROCESSING"
  shows "speak h v txt lang =
           (Rejected (Error ''Invalid state for speaking''),
            [Reject (Error ''Invalid state for speaking'')], v)"
  using assms by (simp add: speak_def is_state_def)

text \<open>While listening, \<open>speak\<close> is rejected and the engine stays as it was.\<close>

theorem C3_speak_outside_processing_witness:
  "currentState (stateManager engine_listening) \<noteq> PROCESSING
   \<and> speak calm engine_listening ''Muy bien'' None =
       (Rejected (Error ''Invalid state for speaking''),
        [Reject (Error ''Invalid state for speaking'')], engine_listening)"
proof -
  have "currentState (stateManager engine_listening) \<noteq> PROCESSING"
    by (simp add: engine_listening_eq phases)
  from this C3_speak_outside_processing [OF this] show ?thesis by simp
qed

text \<open>
  Claim C6, as stated: in both cases \<open>startListening\<close> returns a typed failure without
  side effects. It does not: without speech recognition it calls the registered error
  callback, it returns the same bare \<open>false\<close> as outside the phase Idle, and when that
  callback throws it does not return at all.
\<close>

theorem C6_error_callback_counterexample:
  "startListening calm engine_deaf =
     (Return False,
      [ErrorCallback 12 ''Speech recognition is not supported in your browser.''],
      engine_deaf)
   \<and> startListening calm engine_listening = (Return False, [], engine_listening)
   \<and> startListening failing_error_cb engine_deaf =
     (Throw (Uncaught (WithMessage ''boom'')),
      [ErrorCallback 12 ''Speech recognition is not supported in your browser.''],
      engine_deaf)"
  by (simp add: engine_deaf_def engine_listening_eq failing_error_cb_def ve_eval phases)

text \<open>
  Claim C6, amended. Outside the phase Idle, \<open>startListening\<close> returns false and does
  nothing else. In the phase Idle without speech recognition it leaves the engine
  unchanged, with its phase, does not call \<open>recognition.start\<close> and notifies no
  listener; with no error callback registered it does nothing and returns false; with
  one registered it calls it once with the message "Speech recognition is not supported
  in your browser." and does nothing else, returning the same false when the callback
  returns and throwing what the callback throws.
\<close>

theorem C6_startListening_refused:
  assumes "startListening h v = (r, evs, v')"
  shows "(currentState (stateManager v) \<noteq> IDLE \<longrightarrow> r = Return False \<and> evs = [] \<and> v' = v)
       \<and> (currentState (stateManager v) = IDLE \<and> \<not> recognitionAvailable v \<longrightarrow>
            v' = v \<and> starts evs = [] \<and> calls evs = []
            \<and> (onErrorCallback v = None \<longrightarrow> r = Return False \<and> evs = [])
            \<and> (\<forall>cb. onErrorCallback v = Some cb \<longrightarrow>
                  evs = [ErrorCallback cb ''Speech recognition is not supported in your browser.'']
                  \<and> (error_cb h cb ''Speech recognition is not supported in your browser.''
                        = Returns \<longrightarrow> r = Return False)
                  \<and> (\<forall>t. error_cb h cb ''Speech recognition is not supported in your browser.''
                        = Throws t \<longrightarrow> r = Throw (Uncaught t))))"
  using assms
  by (auto simp: startListening_def is_state_def split: option.splits outcome.splits)

text \<open>
  A listening engine refuses to start; so does the engine of a browser without speech
  recognition, after telling error callback 12.
\<close>

theorem C6_startListening_refused_witness:
  "startListening calm engine_listening = (Return False, [], engine_listening)
   \<and> currentState (stateManager engine_listening) \<noteq> IDLE
   \<and> startListening calm engine_deaf =
       (Return False,
        [ErrorCallback 12 ''Speech recognition is not supported in your browser.''],
        engine_deaf)
   \<and> currentState (stateManager engine_deaf) = IDLE
   \<and> \<not> recognitionAvailable engine_deaf
   \<and> onErrorCallback engine_deaf = Some 12"
proof -
  have n: "currentState (stateManager engine_listening) \<noteq> IDLE"
    by (simp add: engine_listening_eq phases)
  obtain r evs v' where e: "startListening calm engine_listening = (r, evs, v')"
    by (cases "startListening calm engine_listening")
  from C6_startListening_refused [OF e] n have "r = Return False \<and> evs = [] \<and> v' = engine_listening"
    by blast
  with e have 1: "startListening calm engine_listening = (Return False, [], engine_listening)"
    by simp
  have 3: "currentState (stateManager engine_deaf) = IDLE" "\<not> recognitionAvailable engine_deaf"
    "onErrorCallback engine_deaf = Some 12"
    by (simp_all add: engine_deaf_def ve_eval phases)
  have ret: "error_cb calm 12 ''Speech recognition is not supported in your browser.'' = Returns"
    by (simp add: calm_def)
  obtain r2 evs2 v2 where e2: "startListening calm engine_deaf = (r2, evs2, v2)"
    by (cases "startListening calm engine_deaf")
  from C6_startListening_refused [OF e2] 3 ret
  have "r2 = Return False
        \<and> evs2 = [ErrorCallback 12 ''Speech recognition is not supported in your browser.'']
        \<and> v2 = engine_deaf"
    by simp
  with e2 1 3 n show ?thesis by simp
qed

subsection \<open>Capture errors and duplicate transcripts\<close>

text \<open>
  Claim C5, as stated: for \<open>audio-capture\<close> and \<open>not-allowed\<close> the error callback is
  invoked exactly once and the phase is forced to Idle. Neither holds always: an error
  callback that throws leaves the handler before \<open>reset\<close>, so the phase stays
  Listening; and with no error callback registered nothing is invoked.
\<close>

theorem C5_error_callback_counterexample:
  "recognition_onerror failing_error_cb engine_listening ''not-allowed'' =
     (Throw (Uncaught (WithMessage ''boom'')),
      [ErrorCallback 12 ''Microphone access denied. Please allow microphone access.''],
      engine_listening)
   \<and> currentState (stateManager engine_listening) = ''LISTENING''
   \<and> errors (fst (snd (recognition_onerror calm engine_listening_bare ''not-allowed''))) = []"
  by (simp add: engine_listening_bare_def engine_listening_eq failing_error_cb_def ve_eval
      sm_eval phases)

text \<open>
  Claim C5, amended. While listening, a capture error \<open>no-speech\<close> calls no error
  callback and forces the phase to Idle. \<open>audio-capture\<close> and \<open>not-allowed\<close> call the
  error callback, when one is registered, exactly once with the message of their kind;
  the phase is forced to Idle when no callback is registered and when the callback
  returns; when the callback throws, the handler throws the same value and the engine,
  with its phase, is unchanged. A forced phase is the only change in the engine, and the
  listeners are then notified of the move from Listening to Idle.
\<close>

theorem C5_capture_error:
  assumes L: "currentState (stateManager v) = LISTENING"
      and e: "recognition_onerror h v err = (r, evs, v')"
  shows "(err = ''no-speech'' \<longrightarrow>
            errors evs = []
            \<and> v' = v\<lparr>stateManager := (stateManager v)\<lparr>currentState := IDLE\<rparr>\<rparr>)
       \<and> (onErrorCallback v = None \<longrightarrow>
            errors evs = []
            \<and> v' = v\<lparr>stateManager := (stateManager v)\<lparr>currentState := IDLE\<rparr>\<rparr>)
       \<and> (\<forall>cb. err = ''audio-capture'' \<and> onErrorCallback v = Some cb \<longrightarrow>
            errors evs = [(cb, ''No microphone detected. Please check your device.'')]
            \<and> (error_cb h cb ''No microphone detected. Please check your device.'' = Returns \<longrightarrow>
                  v' = v\<lparr>stateManager := (stateManager v)\<lparr>currentState := IDLE\<rparr>\<rparr>)
            \<and> (\<forall>t. error_cb h cb ''No microphone detected. Please check your device.'' = Throws t
                  \<longrightarrow> r = Throw (Uncaught t) \<and> v' = v))
       \<and> (\<forall>cb. err = ''not-allowed'' \<and> onErrorCallback v = Some cb \<longrightarrow>
            errors evs = [(cb, ''Microphone access denied. Please allow microphone access.'')]
            \<and> (error_cb h cb ''Microphone access denied. Please allow microphone access.'' = Returns \<longrightarrow>
                  v' = v\<lparr>stateManager := (stateManager v)\<lparr>currentState := IDLE\<rparr>\<rparr>)
            \<and> (\<forall>t. error_cb h cb ''Microphone access denied. Please allow microphone access.''
                    = Throws t
                  \<longrightarrow> r = Throw (Uncaught t) \<and> v' = v))
       \<and> prefix (calls evs) (map (\<lambda>l. (l, LISTENING, IDLE)) (listeners (stateManager v)))"
proof -
  have surfaced: "errors evs = [(cb, m)]
            \<and> (error_cb h cb m = Returns \<longrightarrow>
                  v' = v\<lparr>stateManager := (stateManager v)\<lparr>currentState := IDLE\<rparr>\<rparr>)
            \<and> (\<forall>t. error_cb h cb m = Throws t \<longrightarrow> r = Throw (Uncaught t) \<and> v' = v)"
    if "error_message err = Some m" "onErrorCallback v = Some cb" for cb m
    using onerror_surfaced [OF that e]
  proof (elim disjE exE conjE)
    fix t assume "error_cb h cb m = Throws t" "r = Throw (Uncaught t)"
      "evs = [ErrorCallback cb m]" "v' = v"
    then show ?thesis by simp
  next
    fix evs' sm'
    assume "error_cb h cb m = Returns" "reset (listener h) (stateManager v) = (r, evs', sm')"
      "evs = ErrorCallback cb m # evs'" "v' = v\<lparr>stateManager := sm'\<rparr>"
    then show ?thesis using reset_effects(1,2) [of "listener h" "stateManager v" r evs' sm'] by simp
  qed
  have silent: "errors evs = []
                \<and> v' = v\<lparr>stateManager := (stateManager v)\<lparr>currentState := IDLE\<rparr>\<rparr>"
    if "error_message err = None \<or> onErrorCallback v = None"
  proof -
    from onerror_silent [OF that e] obtain sm' where
      "reset (listener h) (stateManager v) = (r, evs, sm')" "v' = v\<lparr>stateManager := sm'\<rparr>" by blast
    then show ?thesis
      using reset_effects(1,2) [of "listener h" "stateManager v" r evs sm'] by simp
  qed
  have a: "err = ''no-speech'' \<longrightarrow>
            errors evs = [] \<and> v' = v\<lparr>stateManager := (stateManager v)\<lparr>currentState := IDLE\<rparr>\<rparr>"
    using silent error_message_simps(1) by blast
  have a2: "onErrorCallback v = None \<longrightarrow>
            errors evs = [] \<and> v' = v\<lparr>stateManager := (stateManager v)\<lparr>currentState := IDLE\<rparr>\<rparr>"
    using silent by blast
  have c: "prefix (calls evs) (map (\<lambda>l. (l, LISTENING, IDLE)) (listeners (stateManager v)))"
  proof (cases "error_message err = None \<or> onErrorCallback v = None")
    case True
    with onerror_silent [OF _ e] obtain sm' where
      "reset (listener h) (stateManager v) = (r, evs, sm')" by blast
    then show ?thesis using reset_effects(6) [of "listener h" "stateManager v" r evs sm'] L by simp
  next
    case False
    then obtain m cb where mc: "error_message err = Some m" "onErrorCallback v = Some cb" by auto
    from onerror_surfaced [OF mc e] show ?thesis
    proof (elim disjE exE conjE)
      fix t assume "evs = [ErrorCallback cb m]"
      then show ?thesis by simp
    next
      fix evs' sm'
      assume "reset (listener h) (stateManager v) = (r, evs', sm')" "evs = ErrorCallback cb m # evs'"
      then show ?thesis using reset_effects(6) [of "listener h" "stateManager v" r evs' sm'] L by simp
    qed
  qed
  have b1: "err = ''audio-capture'' \<and> onErrorCallback v = Some cb \<longrightarrow>
            errors evs = [(cb, ''No microphone detected. Please check your device.'')]
            \<and> (error_cb h cb ''No microphone detected. Please check your device.'' = Returns \<longrightarrow>
                  v' = v\<lparr>stateManager := (stateManager v)\<lparr>currentState := IDLE\<rparr>\<rparr>)
            \<and> (\<forall>t. error_cb h cb ''No microphone detected. Please check your device.'' = Throws t
                  \<longrightarrow> r = Throw (Uncaught t) \<and> v' = v)" for cb
    using surfaced [of "''No microphone detected. Please check your device.''" cb]
      error_message_simps(2) by blast
  have b2: "err = ''not-allowed'' \<and> onErrorCallback v = Some cb \<longrightarrow>
            errors evs = [(cb, ''Microphone access denied. Please allow microphone access.'')]
            \<and> (error_cb h cb ''Microphone access denied. Please allow microphone access.'' = Returns \<longrightarrow>
                  v' = v\<lparr>stateManager := (stateManager v)\<lparr>currentState := IDLE\<rparr>\<rparr>)
            \<and> (\<forall>t. error_cb h cb ''Microphone access denied. Please allow microphone access.''
                    = Throws t
                  \<longrightarrow> r = Throw (Uncaught t) \<and> v' = v)" for cb
    using surfaced [of "''Microphone access denied. Please allow microphone access.''" cb]
      error_message_simps(3) by blast
  show ?thesis using a a2 b1 b2 c by blast
qed

text \<open>
  Permission denied while listening: error callback 12 receives the message once and
  the phase is Idle; with \<open>no-speech\<close> the callback is not called and the phase is Idle.
\<close>

theorem C5_capture_error_witness:
  "currentState (stateManager engine_listening) = LISTENING
   \<and> onErrorCallback engine_listening = Some 12
   \<and> errors (fst (snd (recognition_onerror calm engine_listening ''not-allowed'')))
       = [(12, ''Microphone access denied. Please allow microphone access.'')]
   \<and> currentState (stateManager (snd (snd (recognition_onerror calm engine_listening ''not-allowed''))))
       = IDLE
   \<and> errors (fst (snd (recognition_onerror calm engine_listening ''no-speech''))) = []
   \<and> currentState (stateManager (snd (snd (recognition_onerror calm engine_listening ''no-speech''))))
       = IDLE"
proof -
  have L: "currentState (stateManager engine_listening) = LISTENING"
    by (simp add: engine_listening_eq phases)
  have cb: "onErrorCallback engine_listening = Some 12"
    by (simp add: engine_listening_eq engine0_fields)
  have ret: "error_cb calm 12 ''Microphone access denied. Please allow microphone access.'' = Returns"
    by (simp add: calm_def)
  obtain r evs v' where e: "recognition_onerror calm engine_listening ''not-allowed'' = (r, evs, v')"
    by (cases "recognition_onerror calm engine_listening ''not-allowed''")
  obtain r2 evs2 v2 where e2: "recognition_onerror calm engine_listening ''no-speech'' = (r2, evs2, v2)"
    by (cases "recognition_onerror calm engine_listening ''no-speech''")
  from C5_capture_error [OF L e] cb ret
  have "errors evs = [(12, ''Microphone access denied. Please allow microphone access.'')]
        \<and> currentState (stateManager v') = IDLE"
    by simp
  moreover from C5_capture_error [OF L e2]
  have "errors evs2 = [] \<and> currentState (stateManager v2) = IDLE"
    by simp
  ultimately show ?thesis using L cb e e2 by simp
qed

lemma onresult_stores:
  assumes late: "\<not> (trim raw = lastTranscript v \<and> now - lastTranscriptTime v < 2000)"
      and e: "recognition_onresult h v raw confidence now = (r, evs, v')"
  shows "lastTranscript v' = trim raw \<and> lastTranscriptTime v' = now"
proof (cases "is_state (stateManager v) LISTENING")
  case False
  then show ?thesis using late e by (auto simp: recognition_onresult_def Let_def)
next
  case True
  obtain c tev sm' where t: "transition (listener h) (stateManager v) PROCESSING = (c, tev, sm')"
    by (cases "transition (listener h) (stateManager v) PROCESSING")
  show ?thesis using late e True t
    by (cases c; cases "onTranscriptCallback v")
       (auto simp: recognition_onresult_def Let_def)
qed

text \<open>
  Claim C4. A transcript whose trimmed text equals the last stored transcript is dropped
  when it arrives less than 2000 ms after it: nothing is called and nothing changes. When
  it arrives 2000 ms after it or later it passes the filter and is stored with its time;
  while listening, the phase then becomes Processing and the registered transcript
  callback receives the transcript exactly once, provided no listener of the state
  manager throws \<open>null\<close> or \<open>undefined\<close> during the notification.
\<close>

theorem C4_duplicate_transcript:
  assumes d: "trim raw = lastTranscript v"
      and e: "recognition_onresult h v raw confidence now = (r, evs, v')"
  shows "(now - lastTranscriptTime v < 2000 \<longrightarrow> r = Return () \<and> evs = [] \<and> v' = v)
       \<and> (2000 \<le> now - lastTranscriptTime v \<longrightarrow>
            lastTranscript v' = trim raw \<and> lastTranscriptTime v' = now)
       \<and> (2000 \<le> now - lastTranscriptTime v \<and> currentState (stateManager v) = LISTENING \<longrightarrow>
            v' = v\<lparr>lastTranscript := trim raw, lastTranscriptTime := now,
                   stateManager := (stateManager v)\<lparr>currentState := PROCESSING\<rparr>\<rparr>
            \<and> prefix (calls evs)
                 (map (\<lambda>l. (l, LISTENING, PROCESSING)) (listeners (stateManager v)))
            \<and> (\<forall>cb. onTranscriptCallback v = Some cb
                     \<and> (\<forall>l \<in> set (listeners (stateManager v)).
                            listener h l LISTENING PROCESSING \<noteq> Throws Nullish)
                  \<longrightarrow> transcripts evs = [(cb, trim raw, confidence)]
                      \<and> calls evs = map (\<lambda>l. (l, LISTENING, PROCESSING)) (listeners (stateManager v))))"
proof -
  have drop: "now - lastTranscriptTime v < 2000 \<longrightarrow> r = Return () \<and> evs = [] \<and> v' = v"
    using d e by (auto simp: recognition_onresult_def Let_def)
  have acc: "v' = v\<lparr>lastTranscript := trim raw, lastTranscriptTime := now,
                   stateManager := (stateManager v)\<lparr>currentState := PROCESSING\<rparr>\<rparr>
            \<and> prefix (calls evs)
                 (map (\<lambda>l. (l, LISTENING, PROCESSING)) (listeners (stateManager v)))
            \<and> (\<forall>cb. onTranscriptCallback v = Some cb
                     \<and> (\<forall>l \<in> set (listeners (stateManager v)).
                            listener h l LISTENING PROCESSING \<noteq> Throws Nullish)
                  \<longrightarrow> transcripts evs = [(cb, trim raw, confidence)]
                      \<and> calls evs = map (\<lambda>l. (l, LISTENING, PROCESSING)) (listeners (stateManager v)))"
    if late: "2000 \<le> now - lastTranscriptTime v" and L: "currentState (stateManager v) = LISTENING"
  proof -
    obtain c tev sm' where t: "transition (listener h) (stateManager v) PROCESSING = (c, tev, sm')"
      by (cases "transition (listener h) (stateManager v) PROCESSING")
    have tab: "PROCESSING \<in> spec_table (currentState (stateManager v))"
      using L by (simp add: spec_table_def phases)
    from transition_commit [OF tab t] obtain c0 nev where
      n: "notifyListeners (listener h) ((stateManager v)\<lparr>currentState := PROCESSING\<rparr>)
            (currentState (stateManager v)) PROCESSING = (c0, nev)"
      and sm': "sm' = (stateManager v)\<lparr>currentState := PROCESSING\<rparr>"
      and tev: "calls tev = calls nev"
      and c: "c = (case c0 of Return _ \<Rightarrow> Return True | Throw x \<Rightarrow> Throw x)"
      by auto
    have tr: "transcripts tev = []" using readings_transition(3) [OF t] .
    have pre: "prefix (calls tev) (map (\<lambda>l. (l, LISTENING, PROCESSING)) (listeners (stateManager v)))"
      using notify_calls(1) [OF n] tev L by simp
    have all: "(\<forall>l \<in> set (listeners (stateManager v)).
                 listener h l LISTENING PROCESSING \<noteq> Throws Nullish) \<Longrightarrow>
               c = Return True
               \<and> calls tev = map (\<lambda>l. (l, LISTENING, PROCESSING)) (listeners (stateManager v))"
      using notify_calls(2) [OF n] tev c L by simp
    have unf: "(r, evs, v') =
       (let v2 = v\<lparr>lastTranscript := trim raw, lastTranscriptTime := now, stateManager := sm'\<rparr> in
        case c of
          Throw e \<Rightarrow> (Throw e, tev, v2)
        | Return _ \<Rightarrow>
            (case onTranscriptCallback v of
               None \<Rightarrow> (Return (), tev, v2)
             | Some cb \<Rightarrow>
                 (call_result (transcript_cb h cb (trim raw) confidence),
                  tev @ [TranscriptCallback cb (trim raw) confidence], v2)))"
      using e late L t by (cases c) (simp_all add: recognition_onresult_def is_state_def Let_def)
    have v': "v' = v\<lparr>lastTranscript := trim raw, lastTranscriptTime := now,
                   stateManager := (stateManager v)\<lparr>currentState := PROCESSING\<rparr>\<rparr>"
      using unf sm' by (auto simp: Let_def split: completion.splits option.splits)
    have cl: "calls evs = calls tev"
      using unf by (auto simp: Let_def split: completion.splits option.splits)
    have cb: "onTranscriptCallback v = Some cb \<Longrightarrow> c = Return True \<Longrightarrow>
                transcripts evs = [(cb, trim raw, confidence)]" for cb
      using unf tr by (auto simp: Let_def)
    show ?thesis using v' cl pre all cb by auto
  qed
  have store: "2000 \<le> now - lastTranscriptTime v \<longrightarrow>
                 lastTranscript v' = trim raw \<and> lastTranscriptTime v' = now"
    using onresult_stores [OF _ e] by auto
  show ?thesis using drop store acc by blast
qed

text \<open>
  With \<open>hola\<close> stored at time 1000000, \<open>hola\<close> at 1001500 is dropped and \<open>hola\<close> at
  1002500 is delivered to callback 11.
\<close>

theorem C4_duplicate_transcript_witness:
  "trim (js '' hola '') = lastTranscript engine_heard_hola
   \<and> lastTranscriptTime engine_heard_hola = 1000000
   \<and> currentState (stateManager engine_heard_hola) = LISTENING
   \<and> recognition_onresult calm engine_heard_hola (js '' hola '') 0.8 1001500
       = (Return (), [], engine_heard_hola)
   \<and> transcripts (fst (snd (recognition_onresult calm engine_heard_hola (js '' hola '') 0.8 1002500)))
       = [(11, js ''hola'', 0.8)]
   \<and> currentState (stateManager (snd (snd
         (recognition_onresult calm engine_heard_hola (js '' hola '') 0.8 1002500))))
       = PROCESSING"
proof -
  have d: "trim (js '' hola '') = lastTranscript engine_heard_hola"
    by (simp add: engine_heard_hola_def trim_def js_def is_whitespace_def)
  have t: "lastTranscriptTime engine_heard_hola = 1000000"
    by (simp add: engine_heard_hola_def)
  have L: "currentState (stateManager engine_heard_hola) = LISTENING"
    by (simp add: engine_heard_hola_def engine_listening_eq phases)
  have cb: "onTranscriptCallback engine_heard_hola = Some 11"
    by (simp add: engine_heard_hola_def engine_listening_eq engine0_fields)
  have q: "\<forall>l \<in> set (listeners (stateManager engine_heard_hola)).
             listener calm l LISTENING PROCESSING \<noteq> Throws Nullish"
    by (simp add: calm_def quiet_def)
  have h: "lastTranscript engine_heard_hola = js ''hola''"
    by (simp add: engine_heard_hola_def)
  obtain r evs v' where
    e: "recognition_onresult calm engine_heard_hola (js '' hola '') 0.8 1001500 = (r, evs, v')"
    by (cases "recognition_onresult calm engine_heard_hola (js '' hola '') 0.8 1001500")
  obtain r2 evs2 v2 where
    e2: "recognition_onresult calm engine_heard_hola (js '' hola '') 0.8 1002500 = (r2, evs2, v2)"
    by (cases "recognition_onresult calm engine_heard_hola (js '' hola '') 0.8 1002500")
  from C4_duplicate_transcript [OF d e] t
  have 1: "r = Return () \<and> evs = [] \<and> v' = engine_heard_hola" by simp
  from C4_duplicate_transcript [OF d e2] t L cb q
  have 2: "transcripts evs2 = [(11, trim (js '' hola ''), 0.8)]
           \<and> currentState (stateManager v2) = PROCESSING"
    by simp
  show ?thesis using 1 2 d t L e e2 h by simp
qed

subsection \<open>What each operation does to the phase and the capabilities\<close>

lemma phase_neq [simp]:
  "IDLE \<noteq> LISTENING" "IDLE \<noteq> PROCESSING" "IDLE \<noteq> SPEAKING"
  "LISTENING \<noteq> IDLE" "LISTENING \<noteq> PROCESSING" "LISTENING \<noteq> SPEAKING"
  "PROCESSING \<noteq> IDLE" "PROCESSING \<noteq> LISTENING" "PROCESSING \<noteq> SPEAKING"
  "SPEAKING \<noteq> IDLE" "SPEAKING \<noteq> LISTENING" "SPEAKING \<noteq> PROCESSING"
  by (simp_all add: phases)

lemma spec_table_simps [simp]:
  "spec_table IDLE = {LISTENING}" "spec_table LISTENING = {PROCESSING, IDLE}"
  "spec_table PROCESSING = {SPEAKING, IDLE}" "spec_table SPEAKING = {IDLE}"
  by (simp_all add: spec_table_def)






lemma utterance_onerror_effect:
  assumes "utterance_onerror h v err = (r, evs, v')"
  shows "recognition v' = recognition v \<and> synthesis v' = synthesis v \<and> phase v' = IDLE"
proof -
  obtain c tev sm' where t: "reset (listener h) (stateManager v) = (c, tev, sm')"
    by (cases "reset (listener h) (stateManager v)")
  from reset_effects(1) [OF t] assms t show ?thesis
    by (cases c) (auto simp: utterance_onerror_def phase_def)
qed





text \<open>What \<open>speak\<close> does from the phase Processing.\<close>

lemma speak_from_processing:
  assumes P: "phase v = PROCESSING"
      and s: "speak h v txt lang = (r, evs, v')"
      and t: "transition (listener h) (stateManager v) SPEAKING = (c, tev, sm')"
  shows "(\<not> synthesisAvailable v \<and> v' = v \<and> renders evs = [] \<and> evs = [Reject (Error ''Speech synthesis not available'')])
       \<or> (synthesisAvailable v
           \<and> sm' = (stateManager v)\<lparr>currentState := SPEAKING\<rparr>
           \<and> stateManager v' = sm'
           \<and> recognition v' = map_option recognition_stop (recognition v)
           \<and> (\<exists>last. evs = (if synthesis v = Rendering then [SynthesisCancel] else [])
                           @ (case recognition v of None \<Rightarrow> [] | Some _ \<Rightarrow> [RecognitionStop])
                           @ tev @ [last]
                  \<and> (if c = Return True
                      then (\<exists>u. last = SynthesisSpeak u) \<and> synthesis v' = Rendering
                      else (\<exists>e. last = Reject e)
                           \<and> synthesis v' = (if synthesis v = Rendering then Cancelled else synthesis v))))"
proof (cases "synthesisAvailable v")
  case False
  then show ?thesis using P s by (auto simp: speak_def is_state_def phase_def)
next
  case True
  have tab: "SPEAKING \<in> spec_table (currentState (stateManager v))"
    using P by (simp add: phase_def)
  from transition_commit_result [OF tab t] have
    sm': "sm' = (stateManager v)\<lparr>currentState := SPEAKING\<rparr>"
    and c: "c = Return True \<or> (\<exists>e. c = Throw e)" by simp_all
  from c show ?thesis
  proof (elim disjE exE)
    fix e assume "c = Throw e"
    then show ?thesis using P s t True sm'
      by (auto simp: speak_def is_state_def phase_def Let_def synthesis_speaking_def
          synthesis_cancel_def split: option.splits)
  next
    assume "c = Return True"
    then show ?thesis using P s t True sm'
      by (auto simp: speak_def is_state_def phase_def Let_def synthesis_speaking_def
          synthesis_cancel_def split: option.splits)
  qed
qed

lemma set_capture_fields [simp]:
  "stateManager (set_capture v c) = stateManager v"
  "synthesis (set_capture v c) = synthesis v"
  "phase (set_capture v c) = phase v"
  "(recognition (set_capture v c) = None) = (recognition v = None)"
  by (simp_all add: set_capture_def phase_def)

lemma set_capture_Off [simp]:
  "session_open (set_capture v Off) = False" "capture_active (set_capture v Off) = False"
  by (simp_all add: set_capture_def session_open_def capture_active_def split: option.splits)

lemma outcome_delivered_fields [simp]:
  "stateManager (outcome_delivered v) = stateManager v"
  "synthesis (outcome_delivered v) = synthesis v"
  "phase (outcome_delivered v) = phase v"
  "session_open (outcome_delivered v) = False"
  by (simp_all add: outcome_delivered_def phase_def session_open_def
      split: option.splits capture.splits)



lemma stopped_capture:
  assumes "recognition v' = map_option recognition_stop (recognition v)"
  shows "\<not> capture_active v'" "session_open v' \<longrightarrow> session_open v"
  using assms
  by (cases "recognition v";
      simp add: capture_active_def session_open_def recognition_stop_def split: capture.splits)+





text \<open>
  The direct calls the application makes find the engine at rest when it is coherent:
  it calls \<open>transition\<close> in the phase Idle, and \<open>reset\<close> after a \<open>speak\<close> that it
  called in the phase Idle or Processing was rejected, at once or by the failure of the
  utterance.
\<close>

lemma idle_at_rest:
  "coherent v \<Longrightarrow> phase v = IDLE \<Longrightarrow> at_rest v"
  by (auto simp: coherent_def at_rest_def)

lemma rejected_speak_at_rest:
  assumes c: "coherent v" and p: "phase v = IDLE \<or> phase v = PROCESSING"
      and s: "speak h v words lang = (Rejected e, evs, v')"
  shows "at_rest v'"
proof (cases "phase v = PROCESSING")
  case False
  then have "v' = v" using s by (simp add: speak_def is_state_def phase_def)
  with c p False show ?thesis by (auto simp: coherent_def at_rest_def)
next
  case True
  obtain c0 tev sm' where t: "transition (listener h) (stateManager v) SPEAKING = (c0, tev, sm')"
    by (cases "transition (listener h) (stateManager v) SPEAKING")
  have q: "\<not> session_open v" "synthesis v = Silent"
    using c True by (auto simp: coherent_def)
  from speak_from_processing [OF True s t] show ?thesis
  proof (elim disjE conjE exE)
    assume "v' = v" with q show ?thesis by (simp add: at_rest_def)
  next
    fix last
    assume av: "synthesisAvailable v"
    assume a: "recognition v' = map_option recognition_stop (recognition v)"
      "if c0 = Return True
       then (\<exists>u. last = SynthesisSpeak u) \<and> synthesis v' = Rendering
       else (\<exists>e. last = Reject e)
            \<and> synthesis v' = (if synthesis v = Rendering then Cancelled else synthesis v)"
      "evs = (if synthesis v = Rendering then [SynthesisCancel] else [])
               @ (case recognition v of None \<Rightarrow> [] | Some _ \<Rightarrow> [RecognitionStop]) @ tev @ [last]"
    have tn: "renders tev = []" using readings_transition(1) [OF t] .
    have "c0 \<noteq> Return True"
    proof
      assume "c0 = Return True"
      then have "fst (speak h v words lang) = Pending"
        using True t av
        by (auto simp: speak_def is_state_def phase_def Let_def split: option.splits if_splits)
      with s show False by simp
    qed
    with a(2) q have "synthesis v' = Silent" by simp
    moreover have "\<not> session_open v'" using stopped_capture(2) [OF a(1)] q by simp
    ultimately show ?thesis by (simp add: at_rest_def)
  qed
qed

lemma utterance_error_at_rest:
  assumes c: "coherent v" and s: "step h v (UtteranceError err) = Some (evs, v')"
  shows "at_rest v'"
proof -
  have R: "synthesis v \<noteq> Silent" using s by (auto split: if_splits)
  then have S: "\<not> session_open v" using c by (auto simp: coherent_def)
  obtain r where "utterance_onerror h (v\<lparr>synthesis := Silent\<rparr>) err = (r, evs, v')"
    using s R by (cases "utterance_onerror h (v\<lparr>synthesis := Silent\<rparr>) err") (auto split: if_splits)
  from utterance_onerror_effect [OF this] have
    "recognition v' = recognition v" "synthesis v' = Silent" by auto
  then show ?thesis using S by (auto simp: at_rest_def session_open_def)
qed

subsection \<open>Capture and rendering\<close>

lemma stop_before_speak_holds: "b \<Longrightarrow> stop_before_speak b evs"
  by (induction b evs rule: stop_before_speak.induct) simp_all

lemma stop_before_speak_stopped [simp]: "stop_before_speak True evs"
  by (simp add: stop_before_speak_holds)










end
